theory Spec2Isabelle
  imports Complex_Main "HOL-Library.AList"
begin

unbundle bit_operations_syntax

section \<open>JavaScript numbers\<close>

text \<open>
  Every quantity of the feature extractor is a JavaScript number, an IEEE-754 double. A
  number is modelled as a finite real value or one of the three special values. The
  operators \<^verbatim>\<open>+\<close>, \<^verbatim>\<open>-\<close>, \<^verbatim>\<open>*\<close>, \<^verbatim>\<open>/\<close> and \<^verbatim>\<open>Math.sqrt\<close> give the exact
  result rounded to the nearest double (\<open>fl64\<close>: 53 significant bits, ties to the even
  significand, gradual underflow below \<open>2 powi (- 1022)\<close>, overflow to an infinity), and
  follow IEEE-754 on the special values. A decimal literal such as \<^verbatim>\<open>1e-12\<close> is the
  double nearest to its decimal value. ECMAScript leaves the last bit of \<^verbatim>\<open>Math.log2\<close>
  and of \<^verbatim>\<open>**\<close> to the implementation; they are taken as the rounded exact value too.
  Zero carries no sign: a zero divisor is taken as \<open>+0\<close>.
\<close>

datatype jsnum = Num real | NaN | PInf | NInf

definition NumberIsFinite :: "jsnum \<Rightarrow> bool" where
  "NumberIsFinite v = (case v of Num _ \<Rightarrow> True | _ \<Rightarrow> False)"

definition NumberIsNaN :: "jsnum \<Rightarrow> bool" where
  "NumberIsNaN v = (v = NaN)"

text \<open>\<^verbatim>\<open>const isFiniteNum = (v) => Number.isFinite(v) && !Number.isNaN(v);\<close>\<close>

definition isFiniteNum :: "jsnum \<Rightarrow> bool" where
  "isFiniteNum v = (NumberIsFinite v \<and> \<not> NumberIsNaN v)"

text \<open>Rounding a real number to the nearest double.\<close>

definition round_even :: "real \<Rightarrow> int" where
  "round_even q =
     (let f = \<lfloor>q\<rfloor>; r = q - of_int f
      in if r < 1 / 2 then f else if 1 / 2 < r then f + 1 else if even f then f else f + 1)"

definition ulp_exp :: "real \<Rightarrow> int" where
  "ulp_exp x = max (\<lfloor>log 2 \<bar>x\<bar>\<rfloor> - 52) (- 1074)"

definition fl64 :: "real \<Rightarrow> jsnum" where
  "fl64 x =
     (if x = 0 then Num 0
      else let u = 2 powi ulp_exp x; r = of_int (round_even (x / u)) * u
           in if 2 ^ 1024 \<le> \<bar>r\<bar> then (if 0 < x then PInf else NInf) else Num r)"

fun jneg :: "jsnum \<Rightarrow> jsnum" where
  "jneg (Num a) = Num (- a)"
| "jneg NaN = NaN"
| "jneg PInf = NInf"
| "jneg NInf = PInf"

fun jadd :: "jsnum \<Rightarrow> jsnum \<Rightarrow> jsnum" where
  "jadd (Num a) (Num b) = fl64 (a + b)"
| "jadd NaN _ = NaN"
| "jadd _ NaN = NaN"
| "jadd PInf NInf = NaN"
| "jadd NInf PInf = NaN"
| "jadd PInf _ = PInf"
| "jadd _ PInf = PInf"
| "jadd NInf _ = NInf"
| "jadd _ NInf = NInf"

definition jsub :: "jsnum \<Rightarrow> jsnum \<Rightarrow> jsnum" where
  "jsub a b = jadd a (jneg b)"

fun jmul :: "jsnum \<Rightarrow> jsnum \<Rightarrow> jsnum" where
  "jmul (Num a) (Num b) = fl64 (a * b)"
| "jmul NaN _ = NaN"
| "jmul _ NaN = NaN"
| "jmul PInf (Num b) = (if b = 0 then NaN else if 0 < b then PInf else NInf)"
| "jmul NInf (Num b) = (if b = 0 then NaN else if 0 < b then NInf else PInf)"
| "jmul (Num a) PInf = (if a = 0 then NaN else if 0 < a then PInf else NInf)"
| "jmul (Num a) NInf = (if a = 0 then NaN else if 0 < a then NInf else PInf)"
| "jmul PInf PInf = PInf"
| "jmul PInf NInf = NInf"
| "jmul NInf PInf = NInf"
| "jmul NInf NInf = PInf"

fun jdiv :: "jsnum \<Rightarrow> jsnum \<Rightarrow> jsnum" where
  "jdiv (Num a) (Num b) =
     (if b \<noteq> 0 then fl64 (a / b)
      else if a = 0 then NaN else if 0 < a then PInf else NInf)"
| "jdiv NaN _ = NaN"
| "jdiv _ NaN = NaN"
| "jdiv (Num a) PInf = Num 0"
| "jdiv (Num a) NInf = Num 0"
| "jdiv PInf (Num b) = (if 0 \<le> b then PInf else NInf)"
| "jdiv NInf (Num b) = (if 0 \<le> b then NInf else PInf)"
| "jdiv _ _ = NaN"

fun jabs :: "jsnum \<Rightarrow> jsnum" where
  "jabs (Num a) = Num \<bar>a\<bar>"
| "jabs NaN = NaN"
| "jabs PInf = PInf"
| "jabs NInf = PInf"

fun jsqrt :: "jsnum \<Rightarrow> jsnum" where
  "jsqrt (Num a) = (if a < 0 then NaN else fl64 (sqrt a))"
| "jsqrt NaN = NaN"
| "jsqrt PInf = PInf"
| "jsqrt NInf = NaN"

fun jlog2 :: "jsnum \<Rightarrow> jsnum" where
  "jlog2 (Num a) = (if a < 0 then NaN else if a = 0 then NInf else fl64 (log 2 a))"
| "jlog2 NaN = NaN"
| "jlog2 PInf = PInf"
| "jlog2 NInf = NaN"

text \<open>Comparisons: every comparison with \<open>NaN\<close> is false.\<close>

fun jlt :: "jsnum \<Rightarrow> jsnum \<Rightarrow> bool" where
  "jlt (Num a) (Num b) = (a < b)"
| "jlt NaN _ = False"
| "jlt _ NaN = False"
| "jlt _ NInf = False"
| "jlt PInf _ = False"
| "jlt NInf _ = True"
| "jlt _ PInf = True"

definition jle :: "jsnum \<Rightarrow> jsnum \<Rightarrow> bool" where
  "jle a b = (a \<noteq> NaN \<and> b \<noteq> NaN \<and> (jlt a b \<or> a = b))"

definition jgt :: "jsnum \<Rightarrow> jsnum \<Rightarrow> bool" where
  "jgt a b = jlt b a"

definition jge :: "jsnum \<Rightarrow> jsnum \<Rightarrow> bool" where
  "jge a b = jle b a"

text \<open>\<^verbatim>\<open>Math.min\<close> and \<^verbatim>\<open>Math.max\<close> of two numbers.\<close>

definition jmin :: "jsnum \<Rightarrow> jsnum \<Rightarrow> jsnum" where
  "jmin a b = (if a = NaN \<or> b = NaN then NaN else if jlt b a then b else a)"

definition jmax :: "jsnum \<Rightarrow> jsnum \<Rightarrow> jsnum" where
  "jmax a b = (if a = NaN \<or> b = NaN then NaN else if jlt a b then b else a)"

text \<open>
  \<^verbatim>\<open>v || d\<close> on numbers: \<open>NaN\<close> and zero are falsy. Reading an array beyond its
  end gives \<^verbatim>\<open>undefined\<close>, which every arithmetic operator and comparison turns
  into \<open>NaN\<close>; \<open>nthJ\<close> is such a read.
\<close>

definition jor :: "jsnum \<Rightarrow> jsnum \<Rightarrow> jsnum" where
  "jor v d = (if v = NaN \<or> v = Num 0 then d else v)"

definition nthJ :: "jsnum list \<Rightarrow> nat \<Rightarrow> jsnum" where
  "nthJ xs i = (if i < length xs then xs ! i else NaN)"

text \<open>\<^verbatim>\<open>xs.reduce((s, v) => s + v, 0)\<close>\<close>

definition jsum :: "jsnum list \<Rightarrow> jsnum" where
  "jsum xs = foldl jadd (Num 0) xs"

text \<open>\<^verbatim>\<open>const EPS = 1e-12;\<close>\<close>

definition EPS :: jsnum where
  "EPS = fl64 (1 / 10 ^ 12)"

section \<open>Numeric helpers\<close>

text \<open>The value of a finite number; only applied to numbers that passed \<open>isFiniteNum\<close>.\<close>

fun numVal :: "jsnum \<Rightarrow> real" where
  "numVal (Num a) = a"
| "numVal _ = 0"

text \<open>
  \<^verbatim>\<open>const a = [...arr].filter(isFiniteNum).sort((x, y) => x - y);
  if (!a.length) return NaN;
  const m = Math.floor(a.length / 2);
  return a.length % 2 ? a[m] : (a[m - 1] + a[m]) / 2;\<close>
\<close>

definition median :: "jsnum list \<Rightarrow> jsnum" where
  "median arr =
     (let a = sort (map numVal (filter isFiniteNum arr))
      in if length a = 0 then NaN
         else let m = length a div 2
              in if length a mod 2 \<noteq> 0 then Num (a ! m)
                 else jdiv (jadd (Num (a ! (m - 1))) (Num (a ! m))) (Num 2))"

definition medianAbsDeviation :: "jsnum list \<Rightarrow> jsnum" where
  "medianAbsDeviation arr =
     (let m = median arr; devs = map (\<lambda>v. jabs (jsub v m)) arr in median devs)"

text \<open>
  \<^verbatim>\<open>autocorrDecayHalf\<close>. The array \<open>ac\<close> holds, for every lag, the sum of
  \<^verbatim>\<open>xc[i] * xc[i + lag]\<close> over \<open>i < n - lag\<close>. The normalising loop
  \<^verbatim>\<open>for (let i = 0; i < n; i++) ac[i] /= ac[0];\<close> updates the array in place, entry by
  entry from index 0 on, and is modelled as such. The last loop returns the first index
  from 1 on whose entry is below 0.5, and \<open>n\<close> when there is none.
\<close>

definition autocov :: "jsnum list \<Rightarrow> nat \<Rightarrow> nat \<Rightarrow> jsnum" where
  "autocov xc n lag =
     foldl (\<lambda>s i. jadd s (jmul (nthJ xc i) (nthJ xc (i + lag)))) (Num 0) [0..<n - lag]"

definition normalizeInPlace :: "jsnum list \<Rightarrow> nat \<Rightarrow> jsnum list" where
  "normalizeInPlace ac n = foldl (\<lambda>a i. a[i := jdiv (nthJ a i) (nthJ a 0)]) ac [0..<n]"

definition autocorrDecayHalf :: "jsnum list \<Rightarrow> nat" where
  "autocorrDecayHalf x =
     (let n = length x
      in if n < 3 then n
         else let mean = jdiv (jsum x) (Num (real n));
                  xc = map (\<lambda>v. jsub v mean) x;
                  ac = map (autocov xc n) [0..<n]
              in if jlt (jabs (nthJ ac 0)) EPS then 0
                 else let ac' = normalizeInPlace ac n
                      in (case find (\<lambda>i. jlt (nthJ ac' i) (Num (1 / 2))) [1..<n] of
                            Some i \<Rightarrow> i
                          | None \<Rightarrow> n))"

section \<open>Spectral features\<close>

text \<open>
  \<^verbatim>\<open>spectralEntropy\<close>: zero when the total power is not positive, otherwise the sum of
  \<^verbatim>\<open>-p * Math.log2(p + EPS)\<close> over the normalised bins.
\<close>

definition spectralEntropy :: "jsnum list \<Rightarrow> jsnum" where
  "spectralEntropy pw =
     (let sum = jsum pw
      in if \<not> jgt sum (Num 0) then Num 0
         else foldl (\<lambda>H i. let p = jdiv (nthJ pw i) sum
                             in jadd H (jmul (jneg p) (jlog2 (jadd p EPS))))
                (Num 0) [0..<length pw])"

text \<open>
  \<^verbatim>\<open>isPowerOfTwo\<close> and \<^verbatim>\<open>nextPow2\<close> work on array lengths. Their 32-bit operators
  \<^verbatim>\<open>&\<close> and \<^verbatim>\<open><<\<close> agree with the operations on natural numbers for the lengths
  below \<open>2 ^ 30\<close> that they are applied to. In \<open>nextPow2_loop\<close> the variable \<open>p\<close> starts
  at 1 and only doubles; the guard \<open>0 < p\<close>, which never fails from there, makes the
  recursion terminate for every argument.
\<close>

definition isPowerOfTwo :: "nat \<Rightarrow> bool" where
  "isPowerOfTwo n = (n > 1 \<and> (n AND (n - 1)) = 0)"

function nextPow2_loop :: "nat \<Rightarrow> nat \<Rightarrow> nat" where
  "nextPow2_loop p n = (if 0 < p \<and> p < max 2 n then nextPow2_loop (2 * p) n else p)"
  by pat_completeness auto
termination
  by (relation "measure (\<lambda>(p, n). max 2 n - p)") auto

definition nextPow2 :: "nat \<Rightarrow> nat" where
  "nextPow2 n = nextPow2_loop 1 n"

text \<open>
  The transform of the external library fft.js is a parameter of \<open>rfftPower\<close>: for the
  size \<open>N\<close> and the input array it gives the array \<^verbatim>\<open>out\<close> of \<open>2 * N\<close> numbers after
  \<^verbatim>\<open>realTransform\<close> and \<^verbatim>\<open>completeSpectrum\<close>, where \<^verbatim>\<open>out[2 * k]\<close> and
  \<^verbatim>\<open>out[2 * k + 1]\<close> are the real and the imaginary part of bin \<open>k\<close>.
\<close>

type_synonym transform = "nat \<Rightarrow> jsnum list \<Rightarrow> jsnum list"

text \<open>
  Modelled from the spec: the transform of fft.js, which is not part of the repository,
  as the discrete Fourier transform of section 4.3 (bin \<open>k\<close> of \<open>N\<close> real samples), with
  the exact sums. It stands for the parameter where a concrete transform is needed; no
  property below depends on its values.
\<close>

definition dft :: transform where
  "dft N input =
     concat (map (\<lambda>k. [Num (\<Sum>j<N. numVal (nthJ input j) * cos (2 * pi * real j * real k / real N)),
                        Num (- (\<Sum>j<N. numVal (nthJ input j) * sin (2 * pi * real j * real k / real N)))])
               [0..<N])"

record spectrum =
  sp_freqs :: "jsnum list"
  sp_power :: "jsnum list"

definition rfftPower :: "transform \<Rightarrow> jsnum list \<Rightarrow> jsnum \<Rightarrow> spectrum" where
  "rfftPower T xIn fs =
     (if \<not> isFiniteNum fs \<or> jle fs (Num 0) then \<lparr>sp_freqs = [], sp_power = []\<rparr>
      else let x = filter isFiniteNum xIn; n = length x
           in if n < 2 then \<lparr>sp_freqs = [], sp_power = []\<rparr>
              else let xm = jdiv (jsum x) (Num (real n));
                       z = map (\<lambda>v. jsub v xm) x;
                       N = (if isPowerOfTwo n then n else nextPow2 n);
                       input = take (min n N) z @ replicate (N - min n N) (Num 0);
                       out = T N input;
                       half = N div 2;
                       pw = map (\<lambda>k. let re = nthJ out (2 * k); im = nthJ out (2 * k + 1)
                                      in jdiv (jadd (jmul re re) (jmul im im)) (Num (real N)))
                              [0..<half + 1];
                       freqs = map (\<lambda>k. jdiv (jmul (Num (real k)) fs) (Num (real N)))
                                 [0..<half + 1]
                   in \<lparr>sp_freqs = freqs, sp_power = pw\<rparr>)"

record spectral =
  sf_spectral_centroid :: jsnum
  sf_ent :: jsnum
  sf_f1 :: jsnum
  sf_f1_power :: jsnum
  sf_band_0_2 :: jsnum
  sf_band_2_5 :: jsnum
  sf_band_5_10 :: jsnum
  sf_band_10_20 :: jsnum

definition nanSpectral :: spectral where
  "nanSpectral = \<lparr>sf_spectral_centroid = NaN, sf_ent = NaN, sf_f1 = NaN, sf_f1_power = NaN,
     sf_band_0_2 = NaN, sf_band_2_5 = NaN, sf_band_5_10 = NaN, sf_band_10_20 = NaN\<rparr>"

text \<open>
  \<^verbatim>\<open>let idx = 0; for (let i = 1; i < power.length; i++) if (power[i] > power[idx]) idx = i;\<close>
  and the local function \<^verbatim>\<open>band(a, b)\<close> of \<^verbatim>\<open>spectralFeatures\<close>.
\<close>

definition argmaxFirst :: "jsnum list \<Rightarrow> nat" where
  "argmaxFirst pw =
     foldl (\<lambda>idx i. if jgt (nthJ pw i) (nthJ pw idx) then i else idx) 0 [1..<length pw]"

definition band :: "jsnum list \<Rightarrow> jsnum list \<Rightarrow> jsnum \<Rightarrow> jsnum \<Rightarrow> jsnum" where
  "band freqs pw a b =
     foldl (\<lambda>s i. if jge (nthJ freqs i) a \<and> jlt (nthJ freqs i) b then jadd s (nthJ pw i) else s)
       (Num 0) [0..<length freqs]"

definition spectralFeatures :: "transform \<Rightarrow> jsnum list \<Rightarrow> jsnum \<Rightarrow> spectral" where
  "spectralFeatures T x fs =
     (let n = length x
      in if \<not> isFiniteNum fs \<or> n < 8 then nanSpectral
         else let sp = rfftPower T x fs; freqs = sp_freqs sp; pw = sp_power sp
              in if length freqs = 0 then nanSpectral
                 else let sumP = jadd (jsum pw) EPS;
                          sc = jdiv (foldl (\<lambda>s i. jadd s (jmul (nthJ freqs i) (nthJ pw i)))
                                       (Num 0) [0..<length freqs]) sumP;
                          ent = spectralEntropy pw;
                          idx = argmaxFirst pw;
                          f1 = nthJ freqs idx;
                          f1p = nthJ pw idx
                      in \<lparr>sf_spectral_centroid = sc, sf_ent = ent, sf_f1 = f1, sf_f1_power = f1p,
                          sf_band_0_2 = band freqs pw (Num 0) (Num 2),
                          sf_band_2_5 = band freqs pw (Num 2) (Num 5),
                          sf_band_5_10 = band freqs pw (Num 5) (Num 10),
                          sf_band_10_20 = band freqs pw (Num 10) (Num 20)\<rparr>)"

section \<open>Statistical features\<close>

text \<open>\<^verbatim>\<open>linearFitSlope\<close> returns the pair of the slope \<open>m\<close> and the fit quality \<open>r2\<close>.\<close>

definition linearFitSlope :: "jsnum list \<Rightarrow> jsnum list \<Rightarrow> jsnum \<times> jsnum" where
  "linearFitSlope t y =
     (let n = length t
      in if n < 2 then (NaN, NaN)
         else let nn = Num (real n);
                  sumT = jsum t;
                  sumY = jsum y;
                  sumTT = foldl (\<lambda>s v. jadd s (jmul v v)) (Num 0) t;
                  sumTY = foldl (\<lambda>s i. jadd s (jmul (nthJ t i) (nthJ y i))) (Num 0) [0..<n];
                  denom = jadd (jsub (jmul nn sumTT) (jmul sumT sumT)) EPS;
                  m = jdiv (jsub (jmul nn sumTY) (jmul sumT sumY)) denom;
                  b = jdiv (jsub sumY (jmul m sumT)) nn;
                  yhat = map (\<lambda>v. jadd (jmul m v) b) t;
                  meanY = jdiv sumY nn;
                  ssRes = foldl (\<lambda>s i. let e = jsub (nthJ y i) (nthJ yhat i) in jadd s (jmul e e))
                            (Num 0) [0..<n];
                  ssTot = foldl (\<lambda>s i. let d = jsub (nthJ y i) meanY in jadd s (jmul d d))
                            (Num 0) [0..<n];
                  r2 = jsub (Num 1) (jdiv ssRes (jadd ssTot EPS))
              in (m, r2))"

definition medianDelta :: "jsnum list \<Rightarrow> jsnum" where
  "medianDelta time =
     median (filter (\<lambda>dt. isFiniteNum dt \<and> jgt dt (Num 0))
               (map (\<lambda>i. jsub (nthJ time i) (nthJ time (i - 1))) [1..<length time]))"

text \<open>\<^verbatim>\<open>v ** k\<close> for the exponents 2, 3 and 4 that the code uses.\<close>

fun jpow :: "jsnum \<Rightarrow> nat \<Rightarrow> jsnum" where
  "jpow (Num a) k = fl64 (a ^ k)"
| "jpow NaN k = (if k = 0 then Num 1 else NaN)"
| "jpow PInf k = (if k = 0 then Num 1 else PInf)"
| "jpow NInf k = (if k = 0 then Num 1 else if even k then PInf else NInf)"

text \<open>
  The feature vector of one channel: the 21 fields of \<^verbatim>\<open>computeSeriesFeatures\<close>, in
  the order of the returned object (\<open>fv_n\<close> is the field \<^verbatim>\<open>n\<close>, and so on).
\<close>

record featureVector =
  fv_fs :: jsnum
  fv_n :: jsnum
  fv_mean :: jsnum
  fv_std :: jsnum
  fv_mad :: jsnum
  fv_rng :: jsnum
  fv_skew :: jsnum
  fv_kurt :: jsnum
  fv_cv :: jsnum
  fv_slope :: jsnum
  fv_slope_r2 :: jsnum
  fv_ac_half :: jsnum
  fv_spectral_centroid :: jsnum
  fv_spectral_entropy :: jsnum
  fv_dom_freq :: jsnum
  fv_dom_power :: jsnum
  fv_band_0_2 :: jsnum
  fv_band_2_5 :: jsnum
  fv_band_5_10 :: jsnum
  fv_band_10_20 :: jsnum
  fv_low_mid_ratio :: jsnum

definition computeSeriesFeatures :: "transform \<Rightarrow> jsnum list \<Rightarrow> jsnum list \<Rightarrow> featureVector" where
  "computeSeriesFeatures T time yIn =
     (let timeClean = filter isFiniteNum time;
          y = filter isFiniteNum yIn;
          n = min (length timeClean) (length y)
      in if n < 4
         then \<lparr>fv_fs = NaN, fv_n = Num (real n),
               fv_mean = NaN, fv_std = NaN, fv_mad = NaN, fv_rng = NaN, fv_skew = NaN,
               fv_kurt = NaN, fv_cv = NaN,
               fv_slope = NaN, fv_slope_r2 = NaN, fv_ac_half = NaN,
               fv_spectral_centroid = NaN, fv_spectral_entropy = NaN,
               fv_dom_freq = NaN, fv_dom_power = NaN,
               fv_band_0_2 = NaN, fv_band_2_5 = NaN, fv_band_5_10 = NaN, fv_band_10_20 = NaN,
               fv_low_mid_ratio = NaN\<rparr>
         else let yy = take n y;
                  tt = take n timeClean;
                  nn = Num (real n);
                  mean = jdiv (jsum yy) nn;
                  std = jsqrt (jdiv (foldl (\<lambda>s v. jadd s (jpow (jsub v mean) 2)) (Num 0) yy) nn);
                  mad = medianAbsDeviation yy;
                  rng = jsub (foldl jmax NInf yy) (foldl jmin PInf yy);
                  x0 = (if jgt std (Num 0) then map (\<lambda>v. jdiv (jsub v mean) (jadd std EPS)) yy
                        else map (\<lambda>v. Num 0) yy);
                  skew = jdiv (foldl (\<lambda>s v. jadd s (jpow v 3)) (Num 0) x0) nn;
                  kurt = jsub (jdiv (foldl (\<lambda>s v. jadd s (jpow v 4)) (Num 0) x0) nn) (Num 3);
                  cv = jdiv std (jadd (jabs mean) EPS);
                  fit = linearFitSlope tt yy;
                  ac_half = Num (real (autocorrDecayHalf yy));
                  dtMed = medianDelta tt;
                  fs = (if isFiniteNum dtMed \<and> jgt dtMed (Num 0) then jdiv (Num 1) dtMed else NaN);
                  spec = spectralFeatures T yy fs;
                  low_mid = jdiv (sf_band_0_2 spec)
                              (jadd (jadd (jor (sf_band_2_5 spec) (Num 0))
                                          (jor (sf_band_5_10 spec) (Num 0))) EPS)
              in \<lparr>fv_fs = fs, fv_n = nn, fv_mean = mean, fv_std = std, fv_mad = mad, fv_rng = rng,
                  fv_skew = skew, fv_kurt = kurt, fv_cv = cv,
                  fv_slope = fst fit, fv_slope_r2 = snd fit, fv_ac_half = ac_half,
                  fv_spectral_centroid = sf_spectral_centroid spec,
                  fv_spectral_entropy = sf_ent spec,
                  fv_dom_freq = sf_f1 spec, fv_dom_power = sf_f1_power spec,
                  fv_band_0_2 = sf_band_0_2 spec, fv_band_2_5 = sf_band_2_5 spec,
                  fv_band_5_10 = sf_band_5_10 spec, fv_band_10_20 = sf_band_10_20 spec,
                  fv_low_mid_ratio = low_mid\<rparr>)"

section \<open>Sliding-window captions\<close>

text \<open>The five captions: "sharp rise", "sharp drop", "increasing", "decreasing", "constant".\<close>

datatype label = SharpRise | SharpDrop | Increasing | Decreasing | Constant

text \<open>
  \<^verbatim>\<open>labelFromSlope\<close>. The threshold \<^verbatim>\<open>1.5\<close> is a double; \<^verbatim>\<open>0.4\<close> is the double
  nearest to \<open>2 / 5\<close>.
\<close>

definition labelFromSlope :: "jsnum \<Rightarrow> jsnum \<Rightarrow> jsnum \<Rightarrow> label" where
  "labelFromSlope slope sd seconds =
     (let norm = jdiv (jabs slope) (jadd (jdiv sd (jor seconds (Num 1))) EPS)
      in if jge norm (Num (3 / 2)) then (if jgt slope (Num 0) then SharpRise else SharpDrop)
         else if jge norm (fl64 (2 / 5)) then (if jgt slope (Num 0) then Increasing else Decreasing)
         else Constant)"

text \<open>A caption is the object \<^verbatim>\<open>{ window_index: k, label }\<close>.\<close>

record caption =
  cap_window_index :: nat
  cap_label :: label

text \<open>
  The header of the scan,
  \<^verbatim>\<open>for (let start = T0; start <= T1 - 1e-9; start += hopSec, k++)\<close>: the windows
  that the loop visits, each with its index \<open>k\<close> and its start. The literal \<^verbatim>\<open>1e-9\<close>
  is the double nearest to \<open>1 / 10 ^ 9\<close>; the bound \<^verbatim>\<open>T1 - 1e-9\<close> and every new
  start are rounded. The body changes neither variable, and it has no \<^verbatim>\<open>break\<close>.
  The loop need not end (a hop of zero or less, or a hop that the rounded sum
  \<^verbatim>\<open>start + hopSec\<close> absorbs): then there is no result, which is the value \<open>None\<close>.
\<close>

definition literal_1e_9 :: jsnum where
  "literal_1e_9 = fl64 (1 / 10 ^ 9)"

partial_function (option) windowStarts ::
    "jsnum \<Rightarrow> jsnum \<Rightarrow> jsnum \<Rightarrow> nat \<Rightarrow> (nat \<times> jsnum) list option" where
  "windowStarts T1 hopSec start k =
     (if jle start (jsub T1 literal_1e_9)
      then Option.bind (windowStarts T1 hopSec (jadd start hopSec) (Suc k))
             (\<lambda>rest. Some ((k, start) # rest))
      else Some [])"

text \<open>
  The body of the scan. \<open>inWin\<close> is the test
  \<^verbatim>\<open>t >= start && ((end < T1) ? t < end : t <= end)\<close>, \<open>windowIdx\<close> the indices that
  the inner loop collects, and \<open>windowCaption\<close> the caption that the body pushes (none
  when the window holds fewer than 2 samples).
\<close>

definition inWin :: "jsnum \<Rightarrow> jsnum \<Rightarrow> jsnum \<Rightarrow> jsnum \<Rightarrow> bool" where
  "inWin T1 start endT t = (jge t start \<and> (if jlt endT T1 then jlt t endT else jle t endT))"

definition windowIdx :: "jsnum list \<Rightarrow> jsnum \<Rightarrow> jsnum \<Rightarrow> jsnum \<Rightarrow> nat list" where
  "windowIdx time T1 start winSec =
     filter (\<lambda>i. inWin T1 start (jadd start winSec) (nthJ time i)) [0..<length time]"

definition windowCaption ::
    "jsnum list \<Rightarrow> jsnum list \<Rightarrow> jsnum \<Rightarrow> jsnum \<Rightarrow> nat \<times> jsnum \<Rightarrow> caption list" where
  "windowCaption time y winSec T1 ks =
     (let k = fst ks; start = snd ks;
          idx = windowIdx time T1 start winSec
      in if length idx < 2 then []
         else let tk = map (nthJ time) idx;
                  yk = map (nthJ y) idx;
                  fit = linearFitSlope tk yk;
                  mu = jdiv (jsum yk) (Num (real (length yk)));
                  sd = jsqrt (jdiv (foldl (\<lambda>s v. jadd s (jpow (jsub v mu) 2)) (Num 0) yk)
                                  (Num (real (length yk))));
                  label = labelFromSlope (fst fit) sd winSec
              in [\<lparr>cap_window_index = k, cap_label = label\<rparr>])"

text \<open>
  \<^verbatim>\<open>slidingWindowCaptions\<close>. The time argument is \<open>None\<close> when the caller passes no
  array (\<^verbatim>\<open>!time\<close>).
\<close>

definition slidingWindowCaptions ::
    "jsnum list option \<Rightarrow> jsnum list \<Rightarrow> jsnum \<Rightarrow> jsnum \<Rightarrow> caption list option" where
  "slidingWindowCaptions time y winSec hopSec =
     (case time of
        None \<Rightarrow> Some []
      | Some ts \<Rightarrow>
          if length ts < 2 then Some []
          else let T0 = nthJ ts 0; T1 = nthJ ts (length ts - 1)
               in map_option (\<lambda>ws. concat (map (windowCaption ts y winSec T1) ws))
                    (windowStarts T1 hopSec T0 0))"

section \<open>Merging the channels into the structural table\<close>

text \<open>The four value series of a file, \<^verbatim>\<open>series\<close>.\<close>

record series =
  tag1_residual_rad :: "jsnum list"
  tag2_residual_rad :: "jsnum list"
  tag1_detrend_rad :: "jsnum list"
  tag2_detrend_rad :: "jsnum list"

text \<open>
  A channel row is a caption with its window bounds resolved to sample time stamps:
  \<^verbatim>\<open>{ window_index, start_time, end_time, label }\<close>.
\<close>

record chanRow =
  cr_window_index :: nat
  cr_start_time :: jsnum
  cr_end_time :: jsnum
  cr_label :: label

text \<open>\<^verbatim>\<open>findIndex\<close>, with \<open>None\<close> for the result \<open>-1\<close>.\<close>

fun findIndex :: "('a \<Rightarrow> bool) \<Rightarrow> 'a list \<Rightarrow> nat option" where
  "findIndex P [] = None"
| "findIndex P (x # xs) = (if P x then Some 0 else map_option Suc (findIndex P xs))"

text \<open>
  \<^verbatim>\<open>for (let i = si; i < time.length && time[i] <= nominalEnd; i++) ei = i;\<close> on the
  entries from index \<open>i\<close> on, with the current value of \<open>ei\<close>.
\<close>

fun scanEnd :: "jsnum \<Rightarrow> jsnum list \<Rightarrow> nat \<Rightarrow> nat \<Rightarrow> nat" where
  "scanEnd nominalEnd [] i ei = ei"
| "scanEnd nominalEnd (t # ts) i ei =
     (if jle t nominalEnd then scanEnd nominalEnd ts (Suc i) i else ei)"

text \<open>
  \<^verbatim>\<open>const nominalStart = T0 + r.window_index * HOP;\<close> and
  \<^verbatim>\<open>const nominalEnd = nominalStart + WIN;\<close>, the product and the sums rounded.
\<close>

definition nominalStart :: "jsnum list \<Rightarrow> jsnum \<Rightarrow> nat \<Rightarrow> jsnum" where
  "nominalStart time HOP k = jadd (nthJ time 0) (jmul (Num (real k)) HOP)"

definition nominalEnd :: "jsnum list \<Rightarrow> jsnum \<Rightarrow> jsnum \<Rightarrow> nat \<Rightarrow> jsnum" where
  "nominalEnd time WIN HOP k = jadd (nominalStart time HOP k) WIN"

text \<open>
  The function that \<^verbatim>\<open>makeRows\<close> maps over the captions. \<^verbatim>\<open>time[si]\<close> of an empty
  array is \<^verbatim>\<open>undefined\<close>, which \<^verbatim>\<open>Math.min\<close> reads as \<open>NaN\<close>; it does not occur,
  a series without samples having no captions.
\<close>

definition resolveRow :: "jsnum list \<Rightarrow> jsnum \<Rightarrow> jsnum \<Rightarrow> caption \<Rightarrow> chanRow" where
  "resolveRow time WIN HOP r =
     (let nStart = nominalStart time HOP (cap_window_index r);
          nEnd = nominalEnd time WIN HOP (cap_window_index r);
          si = (case findIndex (\<lambda>t. jge t nStart) time of None \<Rightarrow> 0 | Some i \<Rightarrow> i);
          ei = scanEnd nEnd (drop si time) si si
      in \<lparr>cr_window_index = cap_window_index r,
          cr_start_time = nthJ time si,
          cr_end_time = (if ei < length time then time ! ei else nEnd),
          cr_label = cap_label r\<rparr>)"

type_synonym captioner = "jsnum list \<Rightarrow> jsnum list \<Rightarrow> jsnum \<Rightarrow> jsnum \<Rightarrow> caption list option"

definition makeRows ::
    "captioner \<Rightarrow> jsnum list \<Rightarrow> jsnum \<Rightarrow> jsnum \<Rightarrow> jsnum list \<Rightarrow> chanRow list option" where
  "makeRows cap time WIN HOP arr = map_option (map (resolveRow time WIN HOP)) (cap time arr WIN HOP)"

text \<open>
  A row of the merged table. The four labels are unset (\<open>None\<close>) until a channel
  contributes the window.
\<close>

record structRow =
  window_index :: nat
  start_time :: jsnum
  end_time :: jsnum
  tag1_residual_label :: "label option"
  tag2_residual_label :: "label option"
  tag1_detrend_label :: "label option"
  tag2_detrend_label :: "label option"

datatype labelKey = Tag1_residual_label | Tag2_residual_label | Tag1_detrend_label | Tag2_detrend_label

fun setLabel :: "labelKey \<Rightarrow> label \<Rightarrow> structRow \<Rightarrow> structRow" where
  "setLabel Tag1_residual_label l row = row\<lparr>tag1_residual_label := Some l\<rparr>"
| "setLabel Tag2_residual_label l row = row\<lparr>tag2_residual_label := Some l\<rparr>"
| "setLabel Tag1_detrend_label l row = row\<lparr>tag1_detrend_label := Some l\<rparr>"
| "setLabel Tag2_detrend_label l row = row\<lparr>tag2_detrend_label := Some l\<rparr>"

text \<open>
  \<^verbatim>\<open>byIdx\<close> is a \<^verbatim>\<open>Map\<close>, which keeps its keys in insertion order: an association
  list, where a new key goes to the end and an update stays in place. \<open>mergeRow\<close> is the
  body of the loop of \<^verbatim>\<open>merge\<close>.
\<close>

definition mergeRow :: "labelKey \<Rightarrow> (nat \<times> structRow) list \<Rightarrow> chanRow \<Rightarrow> (nat \<times> structRow) list" where
  "mergeRow key byIdx r =
     (let byIdx1 =
            (if map_of byIdx (cr_window_index r) = None
             then byIdx @ [(cr_window_index r,
                    \<lparr>window_index = cr_window_index r, start_time = cr_start_time r,
                     end_time = cr_end_time r, tag1_residual_label = None,
                     tag2_residual_label = None, tag1_detrend_label = None,
                     tag2_detrend_label = None\<rparr>)]
             else byIdx)
      in case map_of byIdx1 (cr_window_index r) of
           None \<Rightarrow> byIdx1
         | Some row \<Rightarrow>
             AList.update (cr_window_index r)
               (setLabel key (cr_label r)
                  (row\<lparr>start_time := jmin (start_time row) (cr_start_time r),
                        end_time := jmax (end_time row) (cr_end_time r)\<rparr>))
               byIdx1)"

definition merge :: "(nat \<times> structRow) list \<Rightarrow> chanRow list \<Rightarrow> labelKey \<Rightarrow> (nat \<times> structRow) list" where
  "merge byIdx rows key = foldl (mergeRow key) byIdx rows"

definition mergeChannels ::
    "chanRow list \<Rightarrow> chanRow list \<Rightarrow> chanRow list \<Rightarrow> chanRow list \<Rightarrow> structRow list" where
  "mergeChannels t1r t2r t1d t2d =
     (let b1 = merge [] t1r Tag1_residual_label;
          b2 = merge b1 t2r Tag2_residual_label;
          b3 = merge b2 t1d Tag1_detrend_label;
          b4 = merge b3 t2d Tag2_detrend_label
      in sort_key window_index (map snd b4))"

text \<open>
  \<^verbatim>\<open>buildCombinedStructuralRows\<close> takes the captioner as its last argument;
  \<^verbatim>\<open>buildCombinedStructuralSheet\<close> has the same body with \<^verbatim>\<open>slidingWindowCaptions\<close>
  in its place. The arguments \<open>WIN\<close> and \<open>HOP\<close> are \<^verbatim>\<open>Number(winSec)\<close> and
  \<^verbatim>\<open>Number(hopSec)\<close>. There is a result when the four scans end.
\<close>

definition buildCombinedStructuralRows ::
    "jsnum list \<Rightarrow> series \<Rightarrow> jsnum \<Rightarrow> jsnum \<Rightarrow> captioner \<Rightarrow> structRow list option" where
  "buildCombinedStructuralRows time srs WIN HOP cap =
     Option.bind (makeRows cap time WIN HOP (tag1_residual_rad srs)) (\<lambda>t1r.
     Option.bind (makeRows cap time WIN HOP (tag2_residual_rad srs)) (\<lambda>t2r.
     Option.bind (makeRows cap time WIN HOP (tag1_detrend_rad srs)) (\<lambda>t1d.
     Option.bind (makeRows cap time WIN HOP (tag2_detrend_rad srs)) (\<lambda>t2d.
       Some (mergeChannels t1r t2r t1d t2d)))))"

definition buildCombinedStructuralSheet ::
    "jsnum list \<Rightarrow> series \<Rightarrow> jsnum \<Rightarrow> jsnum \<Rightarrow> structRow list option" where
  "buildCombinedStructuralSheet time srs WIN HOP =
     buildCombinedStructuralRows time srs WIN HOP (\<lambda>t. slidingWindowCaptions (Some t))"

section \<open>Parsing and cleaning (parseAll)\<close>

text \<open>
  A parsed record \<open>r\<close> enters the cleaning loop through \<^verbatim>\<open>Number(r.time_s)\<close>,
  \<^verbatim>\<open>Number(r.tag1_residual_rad)\<close> and so on; a \<open>row\<close> holds these five numbers.
\<close>

record row =
  r_time_s :: jsnum
  r_tag1_residual_rad :: jsnum
  r_tag2_residual_rad :: jsnum
  r_tag1_detrend_rad :: jsnum
  r_tag2_detrend_rad :: jsnum

record columns =
  c_time :: "jsnum list"
  c_series :: series

definition emptyColumns :: columns where
  "emptyColumns = \<lparr>c_time = [], c_series = \<lparr>tag1_residual_rad = [], tag2_residual_rad = [],
     tag1_detrend_rad = [], tag2_detrend_rad = []\<rparr>\<rparr>"

text \<open>
  The body of \<^verbatim>\<open>for (const r of raw)\<close>: the row is pushed onto the five arrays when
  \<^verbatim>\<open>[t, a1, a2, d1, d2].every(isFiniteNum)\<close>.
\<close>

definition pushRow :: "columns \<Rightarrow> row \<Rightarrow> columns" where
  "pushRow c r =
     (let t = r_time_s r; a1 = r_tag1_residual_rad r; a2 = r_tag2_residual_rad r;
          d1 = r_tag1_detrend_rad r; d2 = r_tag2_detrend_rad r
      in if list_all isFiniteNum [t, a1, a2, d1, d2]
         then \<lparr>c_time = c_time c @ [t],
               c_series = \<lparr>tag1_residual_rad = tag1_residual_rad (c_series c) @ [a1],
                            tag2_residual_rad = tag2_residual_rad (c_series c) @ [a2],
                            tag1_detrend_rad = tag1_detrend_rad (c_series c) @ [d1],
                            tag2_detrend_rad = tag2_detrend_rad (c_series c) @ [d2]\<rparr>\<rparr>
         else c)"

definition collectRows :: "row list \<Rightarrow> columns" where
  "collectRows raw = foldl pushRow emptyColumns raw"

text \<open>
  The repair of the time column, \<^verbatim>\<open>time[i] = time[i - 1] + 1e-6\<close>. The literal
  \<^verbatim>\<open>1e-6\<close> is the double nearest to \<open>1 / 10 ^ 6\<close>, and the sum is the rounded sum.
\<close>

definition literal_1e_6 :: jsnum where
  "literal_1e_6 = fl64 (1 / 10 ^ 6)"

text \<open>
  \<^verbatim>\<open>for (let i = 1; i < time.length; i++)
    if (!(time[i] > time[i - 1])) time[i] = time[i - 1] + 1e-6;\<close>
\<close>

definition enforceStep :: "jsnum list \<Rightarrow> nat \<Rightarrow> jsnum list" where
  "enforceStep time i =
     (if \<not> jgt (nthJ time i) (nthJ time (i - 1))
      then time[i := jadd (nthJ time (i - 1)) literal_1e_6]
      else time)"

definition enforceIncreasing :: "jsnum list \<Rightarrow> jsnum list" where
  "enforceIncreasing time = foldl enforceStep time [1..<length time]"

text \<open>
  One file of \<^verbatim>\<open>parseAll\<close>: \<open>cols\<close> are the header fields of the parsed file and
  \<open>raw\<close> its records. A file is skipped with a logged diagnostic (the \<open>Inl\<close> results)
  when a required column is missing or fewer than 8 rows survive.
\<close>

datatype diagnostic = MissingColumns "string list" | TooFewRows nat

definition needed :: "string list" where
  "needed = [''time_s'', ''tag1_residual_rad'', ''tag2_residual_rad'',
             ''tag1_detrend_rad'', ''tag2_detrend_rad'']"

definition parseFile :: "string list \<Rightarrow> row list \<Rightarrow> diagnostic + columns" where
  "parseFile cols raw =
     (let missing = filter (\<lambda>c. c \<notin> set cols) needed
      in if missing \<noteq> [] then Inl (MissingColumns missing)
         else let c = collectRows raw
              in if length (c_time c) < 8 then Inl (TooFewRows (length (c_time c)))
                 else Inr (c\<lparr>c_time := enforceIncreasing (c_time c)\<rparr>))"

section \<open>Notions used to state the properties\<close>

text \<open>
  \<open>rowFinite\<close> says that the five numbers of a parsed row are finite.
  \<open>channelRows\<close> are the channel rows of the four series, in the order in which they
  are merged. \<open>okRow\<close> says that a channel row has finite bounds in the right order;
  \<open>isMinStart\<close> and \<open>isMaxEnd\<close> say that the bounds of a merged row are attained by a
  channel row of its index and bound the others. \<open>mergeInv\<close> is the invariant of the
  accumulator \<^verbatim>\<open>byIdx\<close>, and \<open>seedRow\<close> and \<open>widen\<close> name the two steps of
  \<open>mergeRow\<close>.
\<close>

definition rowFinite :: "row \<Rightarrow> bool" where
  "rowFinite r = (isFiniteNum (r_time_s r) \<and> isFiniteNum (r_tag1_residual_rad r)
     \<and> isFiniteNum (r_tag2_residual_rad r) \<and> isFiniteNum (r_tag1_detrend_rad r)
     \<and> isFiniteNum (r_tag2_detrend_rad r))"

definition channelRows ::
    "captioner \<Rightarrow> jsnum list \<Rightarrow> series \<Rightarrow> jsnum \<Rightarrow> jsnum \<Rightarrow> chanRow list option" where
  "channelRows cap time srs WIN HOP =
     Option.bind (makeRows cap time WIN HOP (tag1_residual_rad srs)) (\<lambda>t1r.
     Option.bind (makeRows cap time WIN HOP (tag2_residual_rad srs)) (\<lambda>t2r.
     Option.bind (makeRows cap time WIN HOP (tag1_detrend_rad srs)) (\<lambda>t1d.
     Option.bind (makeRows cap time WIN HOP (tag2_detrend_rad srs)) (\<lambda>t2d.
       Some (t1r @ t2r @ t1d @ t2d)))))"

definition okRow :: "chanRow \<Rightarrow> bool" where
  "okRow r = (\<exists>s e. cr_start_time r = Num s \<and> cr_end_time r = Num e \<and> s \<le> e)"

definition isMinStart :: "chanRow list \<Rightarrow> structRow \<Rightarrow> bool" where
  "isMinStart rs row =
     ((\<exists>r\<in>set rs. cr_window_index r = window_index row \<and> cr_start_time r = start_time row)
      \<and> (\<forall>r\<in>set rs. cr_window_index r = window_index row \<longrightarrow> jle (start_time row) (cr_start_time r)))"

definition isMaxEnd :: "chanRow list \<Rightarrow> structRow \<Rightarrow> bool" where
  "isMaxEnd rs row =
     ((\<exists>r\<in>set rs. cr_window_index r = window_index row \<and> cr_end_time r = end_time row)
      \<and> (\<forall>r\<in>set rs. cr_window_index r = window_index row \<longrightarrow> jle (cr_end_time r) (end_time row)))"

definition mergeInv :: "(nat \<times> structRow) list \<Rightarrow> chanRow list \<Rightarrow> bool" where
  "mergeInv b rs =
     (distinct (map fst b)
      \<and> (\<forall>k. map_of b k = None \<longleftrightarrow> k \<notin> cr_window_index ` set rs)
      \<and> (\<forall>k row. map_of b k = Some row \<longrightarrow>
            window_index row = k \<and> isMinStart rs row \<and> isMaxEnd rs row))"

definition seedRow :: "chanRow \<Rightarrow> structRow" where
  "seedRow r = \<lparr>window_index = cr_window_index r, start_time = cr_start_time r,
     end_time = cr_end_time r, tag1_residual_label = None, tag2_residual_label = None,
     tag1_detrend_label = None, tag2_detrend_label = None\<rparr>"

definition widen :: "labelKey \<Rightarrow> chanRow \<Rightarrow> structRow \<Rightarrow> structRow" where
  "widen key r row = setLabel key (cr_label r)
     (row\<lparr>start_time := jmin (start_time row) (cr_start_time r),
          end_time := jmax (end_time row) (cr_end_time r)\<rparr>)"

text \<open>The window index and the two resolved bounds of a channel row.\<close>

definition rowBounds :: "chanRow \<Rightarrow> nat \<times> jsnum \<times> jsnum" where
  "rowBounds r = (cr_window_index r, cr_start_time r, cr_end_time r)"

text \<open>
  For comparison with the repair of \<^verbatim>\<open>parseAll\<close>: \<open>enforceStepExact\<close> is \<open>enforceStep\<close>
  with the sum of two finite numbers taken exactly (\<open>addExact\<close>) instead of rounded to a
  double, and \<open>increasingUpTo k xs\<close> says that \<open>xs\<close> is finite and strictly increasing at
  every step up to index \<open>k\<close>.
\<close>

fun addExact :: "jsnum \<Rightarrow> jsnum \<Rightarrow> jsnum" where
  "addExact (Num a) (Num b) = Num (a + b)"
| "addExact a b = jadd a b"

definition enforceStepExact :: "jsnum list \<Rightarrow> nat \<Rightarrow> jsnum list" where
  "enforceStepExact time i =
     (if \<not> jgt (nthJ time i) (nthJ time (i - 1))
      then time[i := addExact (nthJ time (i - 1)) literal_1e_6]
      else time)"

definition increasingUpTo :: "nat \<Rightarrow> jsnum list \<Rightarrow> bool" where
  "increasingUpTo k xs =
     (list_all isFiniteNum xs \<and> (\<forall>i. 0 < i \<and> i \<le> k \<and> i < length xs \<longrightarrow> jgt (xs ! i) (xs ! (i - 1))))"
section \<open>Basic facts about numbers\<close>

lemma jle_Num [simp]: "jle (Num a) (Num b) = (a \<le> b)"
  by (auto simp: jle_def)

lemma jge_Num [simp]: "jge (Num a) (Num b) = (b \<le> a)"
  by (simp add: jge_def)

lemma jgt_Num [simp]: "jgt (Num a) (Num b) = (b < a)"
  by (simp add: jgt_def)

lemma nthJ_map_Num: "i < length ts \<Longrightarrow> nthJ (map Num ts) i = Num (ts ! i)"
  by (simp add: nthJ_def)

lemma nthJ_last: "ts \<noteq> [] \<Longrightarrow> nthJ (map Num ts) (length (map Num ts) - 1) = Num (last ts)"
  by (simp add: nthJ_def last_conv_nth)

lemma jmin_Num [simp]: "jmin (Num a) (Num b) = Num (min a b)"
  by (auto simp: jmin_def)

lemma jmax_Num [simp]: "jmax (Num a) (Num b) = Num (max a b)"
  by (auto simp: jmax_def)

section \<open>Facts about rounding\<close>

text \<open>
  A number \<open>m * 2 powi e\<close> with an integer \<open>m\<close> of fewer than 54 bits is a double, and
  rounding leaves it as it is (\<open>fl64_exact\<close>); \<open>fl64_sixteenths\<close> and \<open>fl64_eights\<close> are
  the instances for multiples of \<open>1 / 16\<close> and of 8. \<open>ulp_exp_eq\<close> gives the exponent of
  the last bit of a number from the binade it lies in.
\<close>

lemma round_even_of_int: "round_even (of_int n) = n"
  by (simp add: round_even_def)

lemma ulp_exp_eq:
  assumes "2 powi e \<le> \<bar>x\<bar>" and "\<bar>x\<bar> < 2 powi (e + 1)"
  shows "ulp_exp x = max (e - 52) (- 1074)"
proof -
  have pos: "0 < \<bar>x\<bar>"
    using assms(1) by (smt (verit) zero_less_power_int)
  have a: "2 powr real_of_int e = 2 powi e"
    by (simp add: powr_real_of_int')
  have b: "2 powr real_of_int (e + 1) = 2 powi (e + 1)"
    using powr_real_of_int' [of 2 "e + 1"] by simp
  have "\<lfloor>log 2 \<bar>x\<bar>\<rfloor> = e"
    using assms floor_log_eq_powr_iff [OF pos, of 2 e] a b by simp
  then show ?thesis by (simp add: ulp_exp_def)
qed

lemma ulp_exp_le:
  assumes "x \<noteq> 0" and "\<bar>x\<bar> < 2 powi (e + 53)" and "- 1074 \<le> e"
  shows "ulp_exp x \<le> e"
proof -
  have pos: "0 < \<bar>x\<bar>" using assms(1) by simp
  have "log 2 \<bar>x\<bar> < log 2 (2 powi (e + 53))"
    using pos assms(2) by (simp add: log_less_cancel_iff)
  also have "log 2 (2 powi (e + 53)) = real_of_int (e + 53)"
  proof -
    have "(2 :: real) powi (e + 53) = 2 powr real_of_int (e + 53)"
      using powr_real_of_int' [of 2 "e + 53"] by simp
    then show ?thesis
      by (simp only: log_powr_cancel)
  qed
  finally have "\<lfloor>log 2 \<bar>x\<bar>\<rfloor> < e + 53"
    by (simp add: floor_less_iff)
  then show ?thesis
    using assms(3) by (simp add: ulp_exp_def)
qed

lemma fl64_exact:
  assumes x: "x = of_int m * 2 powi e" and m: "\<bar>m\<bar> < 2 ^ 53" and e: "- 1074 \<le> e" "e \<le> 970"
  shows "fl64 x = Num x"
proof (cases "x = 0")
  case True
  then show ?thesis by (simp add: fl64_def)
next
  case False
  define u where "u = ulp_exp x"
  have absx: "\<bar>x\<bar> = of_int \<bar>m\<bar> * 2 powi e"
    unfolding x by (simp add: abs_mult)
  have "of_int \<bar>m\<bar> < (2 :: real) ^ 53"
    using m by (metis of_int_less_numeral_power_cancel_iff)
  then have lt: "\<bar>x\<bar> < 2 ^ 53 * 2 powi e"
    unfolding absx by (simp add: mult_strict_right_mono)
  have p: "(2 :: real) ^ 53 * 2 powi e = 2 powi (e + 53)"
    by (simp add: power_int_add)
  have ule: "u \<le> e"
    unfolding u_def using False lt e(1) unfolding p by (rule ulp_exp_le)
  have q: "x / 2 powi u = of_int (m * 2 ^ nat (e - u))"
  proof -
    have "(2 :: real) powi e = 2 powi (e - u) * 2 powi u"
      by (simp add: power_int_add [symmetric])
    moreover have "(2 :: real) powi (e - u) = 2 ^ nat (e - u)"
      using ule by (simp add: power_int_def)
    ultimately show ?thesis
      unfolding x by simp
  qed
  have r: "of_int (round_even (x / 2 powi u)) * 2 powi u = x"
    unfolding q round_even_of_int using q by (simp add: field_simps)
  have "2 powi e \<le> (2 :: real) powi 970"
    using e(2) by (intro power_int_increasing) simp_all
  then have "\<bar>x\<bar> < 2 ^ 53 * 2 powi 970"
    using lt by (smt (verit) mult_left_mono zero_le_power)
  also have "\<dots> = (2 :: real) ^ 1023"
    by (simp add: power_int_def power_add [symmetric])
  also have "\<dots> < 2 ^ 1024"
    by simp
  finally have small: "\<not> 2 ^ 1024 \<le> \<bar>x\<bar>" by simp
  show ?thesis
    using False small r by (simp add: fl64_def Let_def u_def [symmetric])
qed

lemma fl64_sixteenths:
  assumes "x * 16 \<in> \<int>" and "\<bar>x\<bar> < 2 ^ 49"
  shows "fl64 x = Num x"
proof -
  from assms(1) obtain m where m: "x * 16 = of_int m"
    by (auto elim: Ints_cases)
  then have x: "x = of_int m * 2 powi (- 4)"
    by (simp add: power_int_minus field_simps)
  have "\<bar>of_int m :: real\<bar> < 2 ^ 53"
    using assms(2) unfolding m [symmetric] by (simp add: abs_mult)
  then have "\<bar>m\<bar> < 2 ^ 53"
    by (metis of_int_abs of_int_less_numeral_power_cancel_iff)
  then show ?thesis
    using x by (intro fl64_exact [of x m "- 4"]) simp_all
qed

lemma fl64_eights:
  assumes "x / 8 \<in> \<int>" and "\<bar>x\<bar> < 2 ^ 56"
  shows "fl64 x = Num x"
proof -
  from assms(1) obtain m where m: "x / 8 = of_int m"
    by (auto elim: Ints_cases)
  then have x: "x = of_int m * 2 powi 3"
    by (simp add: field_simps)
  have "\<bar>of_int m :: real\<bar> < 2 ^ 53"
    using assms(2) unfolding m [symmetric] by (simp add: abs_mult)
  then have "\<bar>m\<bar> < 2 ^ 53"
    by (metis of_int_abs of_int_less_numeral_power_cancel_iff)
  then show ?thesis
    using x by (intro fl64_exact [of x m 3]) simp_all
qed

text \<open>
  A number in the binade from \<open>2 powi e\<close> rounds to a multiple of \<open>2 powi (e - 52)\<close>
  (\<open>fl64_binade\<close>, for normal numbers without overflow).
\<close>


lemma round_even_bounds: "\<bar>of_int (round_even q) - q\<bar> \<le> 1"
proof -
  have "of_int \<lfloor>q\<rfloor> \<le> q" "q < of_int \<lfloor>q\<rfloor> + 1"
    by linarith+
  then show ?thesis
    by (auto simp: round_even_def Let_def)
qed

lemma fl64_binade:
  assumes lo: "2 powi e \<le> \<bar>x\<bar>" and hi: "\<bar>x\<bar> < 2 powi (e + 1)"
    and e: "- 1022 \<le> e" "e \<le> 1000"
  shows "fl64 x = Num (of_int (round_even (x / 2 powi (e - 52))) * 2 powi (e - 52))"
proof -
  let ?u = "2 powi (e - 52) :: real"
  let ?r = "of_int (round_even (x / ?u)) * ?u"
  have upos: "0 < ?u" by simp
  have x0: "x \<noteq> 0"
    using lo by (smt (verit) zero_less_power_int)
  have u: "ulp_exp x = e - 52"
    using ulp_exp_eq [OF lo hi] e(1) by simp
  have "\<bar>of_int (round_even (x / ?u)) - x / ?u\<bar> \<le> 1"
    by (rule round_even_bounds)
  then have "\<bar>of_int (round_even (x / ?u)) - x / ?u\<bar> * \<bar>?u\<bar> \<le> 1 * ?u"
    using upos by (intro mult_mono) simp_all
  moreover have "?r - x = (of_int (round_even (x / ?u)) - x / ?u) * ?u"
    using upos by (simp add: left_diff_distrib)
  ultimately have "\<bar>?r - x\<bar> \<le> ?u"
    by (simp only: abs_mult mult_1)
  then have "\<bar>?r\<bar> \<le> \<bar>x\<bar> + ?u"
    by linarith
  also have "\<dots> < 2 powi (e + 1) + ?u"
    using hi by simp
  also have "\<dots> \<le> 2 powi 1001 + 2 powi 1001"
    using e(2) by (intro add_mono power_int_increasing) simp_all
  also have "\<dots> = (2 :: real) ^ 1002"
    by (simp add: power_int_def)
  also have "\<dots> \<le> 2 ^ 1024"
    by simp
  finally have "\<not> 2 ^ 1024 \<le> \<bar>?r\<bar>" by simp
  then show ?thesis
    using x0 by (simp add: fl64_def u Let_def)
qed

text \<open>The values of the literals \<^verbatim>\<open>1e-12\<close> and \<^verbatim>\<open>1e-9\<close>.\<close>

lemma EPS_value: "EPS = Num (4951760157141521 / 2 ^ 92)"
proof -
  have "ulp_exp (1 / 10 ^ 12) = - 92"
    using ulp_exp_eq [of "- 40" "1 / 10 ^ 12"] by (simp add: power_int_minus)
  then show ?thesis
    by (simp add: EPS_def fl64_def round_even_def Let_def power_int_minus)
qed

lemma literal_1e_9_value: "literal_1e_9 = Num (4835703278458517 / 2 ^ 82)"
proof -
  have "ulp_exp (1 / 10 ^ 9) = - 82"
    using ulp_exp_eq [of "- 30" "1 / 10 ^ 9"] by (simp add: power_int_minus)
  then show ?thesis
    by (simp add: literal_1e_9_def fl64_def round_even_def Let_def power_int_minus)
qed
lemma pushRow_rowFinite:
  "pushRow c r =
     (if rowFinite r
      then \<lparr>c_time = c_time c @ [r_time_s r],
            c_series = \<lparr>tag1_residual_rad = tag1_residual_rad (c_series c) @ [r_tag1_residual_rad r],
                         tag2_residual_rad = tag2_residual_rad (c_series c) @ [r_tag2_residual_rad r],
                         tag1_detrend_rad = tag1_detrend_rad (c_series c) @ [r_tag1_detrend_rad r],
                         tag2_detrend_rad = tag2_detrend_rad (c_series c) @ [r_tag2_detrend_rad r]\<rparr>\<rparr>
      else c)"
  by (simp add: pushRow_def rowFinite_def Let_def)

lemma foldl_pushRow:
  "foldl pushRow c raw =
     \<lparr>c_time = c_time c @ map r_time_s (filter rowFinite raw),
      c_series = \<lparr>
        tag1_residual_rad = tag1_residual_rad (c_series c) @ map r_tag1_residual_rad (filter rowFinite raw),
        tag2_residual_rad = tag2_residual_rad (c_series c) @ map r_tag2_residual_rad (filter rowFinite raw),
        tag1_detrend_rad = tag1_detrend_rad (c_series c) @ map r_tag1_detrend_rad (filter rowFinite raw),
        tag2_detrend_rad = tag2_detrend_rad (c_series c) @ map r_tag2_detrend_rad (filter rowFinite raw)\<rparr>\<rparr>"
proof (induction raw arbitrary: c)
  case Nil
  show ?case by simp
next
  case (Cons r raw)
  show ?case
    by (cases "rowFinite r") (simp_all add: Cons.IH pushRow_rowFinite [of c r])
qed


lemma literal_1e_6_value: "literal_1e_6 = Num (4722366482869645 / 2 ^ 72)"
proof -
  have "ulp_exp (1 / 10 ^ 6) = - 72"
    using ulp_exp_eq [of "- 20" "1 / 10 ^ 6"] by (simp add: power_int_minus)
  then show ?thesis
    by (simp add: literal_1e_6_def fl64_def round_even_def Let_def power_int_minus)
qed

lemma fl64_absorbed:
  "fl64 (1700000000000 + 4722366482869645 / 2 ^ 72) = Num 1700000000000"
proof -
  have "ulp_exp (1700000000000 + 4722366482869645 / 2 ^ 72) = - 12"
    using ulp_exp_eq [of 40 "1700000000000 + 4722366482869645 / 2 ^ 72"]
    by (simp add: power_int_minus)
  then show ?thesis
    by (simp add: fl64_def round_even_def Let_def power_int_minus)
qed

lemma enforceStep_epoch_ms:
  "enforceStep (replicate 8 (Num 1700000000000)) i = replicate 8 (Num 1700000000000)"
proof (cases "i < 8")
  case True
  have same: "(replicate 8 (Num 1700000000000))[i := Num 1700000000000]
          = replicate 8 (Num 1700000000000)"
    using True by (metis length_replicate list_update_id nth_replicate)
  have prev: "nthJ (replicate 8 (Num 1700000000000)) (i - 1) = Num 1700000000000"
    using True by (simp add: nthJ_def)
  have sum: "jadd (Num 1700000000000) literal_1e_6 = Num 1700000000000"
    unfolding literal_1e_6_value jadd.simps by (rule fl64_absorbed)
  show ?thesis
    unfolding enforceStep_def prev sum same by simp
next
  case False
  then show ?thesis
    by (simp add: enforceStep_def list_update_beyond)
qed

text \<open>At ordinary magnitudes the repair step does move a repeated time stamp forward.\<close>

lemma enforceIncreasing_small_example:
  "enforceIncreasing [Num 1, Num 1] = [Num 1, Num (1 + 4503599627 / 2 ^ 52)]"
proof -
  have u: "ulp_exp (1 + 4722366482869645 / 2 ^ 72) = - 52"
    using ulp_exp_eq [of 0 "1 + 4722366482869645 / 2 ^ 72"] by simp
  have "fl64 (1 + 4722366482869645 / 2 ^ 72) = Num (1 + 4503599627 / 2 ^ 52)"
    unfolding fl64_def u by (simp add: round_even_def Let_def power_int_minus)
  then have "jadd (Num 1) literal_1e_6 = Num (1 + 4503599627 / 2 ^ 52)"
    unfolding literal_1e_6_value jadd.simps .
  then show ?thesis
    by (simp add: enforceIncreasing_def enforceStep_def nthJ_def jgt_def)
qed

text \<open>
  With the sum taken exactly the same loop does make every finite time column strictly
  increasing; the rounding of the sum is the only thing that can defeat the repair.
\<close>

lemma enforceStepExact_length [simp]: "length (enforceStepExact xs i) = length xs"
  by (simp add: enforceStepExact_def)

lemma isFiniteNum_Num: "isFiniteNum v \<longleftrightarrow> (\<exists>a. v = Num a)"
  by (cases v) (simp_all add: isFiniteNum_def NumberIsFinite_def NumberIsNaN_def)

lemma enforceStepExact_step:
  assumes "increasingUpTo k xs"
  shows "increasingUpTo (Suc k) (enforceStepExact xs (Suc k))"
proof (cases "Suc k < length xs")
  case False
  then have "enforceStepExact xs (Suc k) = xs"
    by (simp add: enforceStepExact_def list_update_beyond)
  with assms False show ?thesis
    by (auto simp: increasingUpTo_def)
next
  case True
  from assms have fin: "list_all isFiniteNum xs"
    by (simp add: increasingUpTo_def)
  then obtain a b where a: "xs ! k = Num a" and b: "xs ! Suc k = Num b"
    using True by (metis Suc_lessD isFiniteNum_Num list_all_length)
  let ?ys = "enforceStepExact xs (Suc k)"
  have ys: "?ys = (if b \<le> a then xs[Suc k := Num (a + 4722366482869645 / 2 ^ 72)] else xs)"
    using True a b by (auto simp: enforceStepExact_def nthJ_def literal_1e_6_value)
  have "isFiniteNum (?ys ! j)" if "j < length xs" for j
  proof (cases "j = Suc k")
    case True
    then show ?thesis
      using that b unfolding ys by (simp add: isFiniteNum_Num)
  next
    case False
    then have "?ys ! j = xs ! j"
      unfolding ys by simp
    then show ?thesis
      using fin that by (simp add: list_all_length)
  qed
  then have finy: "list_all isFiniteNum ?ys"
    by (simp add: list_all_length)
  have old: "?ys ! i = xs ! i" if "i \<le> k" for i
    using that unfolding ys by simp
  have new: "jgt (?ys ! Suc k) (?ys ! k)"
    using True a b unfolding ys by simp
  have "jgt (?ys ! i) (?ys ! (i - 1))" if "0 < i" "i \<le> Suc k" "i < length ?ys" for i
  proof (cases "i = Suc k")
    case True
    then show ?thesis using new by simp
  next
    case False
    with that have "i \<le> k" by simp
    then have "?ys ! i = xs ! i" "?ys ! (i - 1) = xs ! (i - 1)"
      using old by simp_all
    moreover have "jgt (xs ! i) (xs ! (i - 1))"
      using assms that \<open>i \<le> k\<close> by (simp add: increasingUpTo_def)
    ultimately show ?thesis by simp
  qed
  with finy show ?thesis
    unfolding increasingUpTo_def by blast
qed

lemma enforce_exact_prefix:
  assumes "list_all isFiniteNum xs"
  shows "increasingUpTo k (foldl enforceStepExact xs [1..<Suc k])"
proof (induction k)
  case 0
  then show ?case using assms by (simp add: increasingUpTo_def)
next
  case (Suc k)
  have "[1..<Suc (Suc k)] = [1..<Suc k] @ [Suc k]"
    by simp
  then show ?case
    using enforceStepExact_step [OF Suc] by simp
qed

lemma foldl_enforceStepExact_length [simp]:
  "length (foldl enforceStepExact xs is) = length xs"
  by (induction "is" arbitrary: xs) simp_all

lemma repair_exact_strictly_increasing:
  assumes "list_all isFiniteNum time" and "0 < i" and "i < length time"
  shows "jgt (foldl enforceStepExact time [1..<length time] ! i)
             (foldl enforceStepExact time [1..<length time] ! (i - 1))"
proof -
  from assms obtain n where n: "length time = Suc n"
    by (cases time) auto
  have "increasingUpTo n (foldl enforceStepExact time [1..<Suc n])"
    using assms(1) by (rule enforce_exact_prefix)
  then have "\<forall>j. 0 < j \<and> j \<le> n \<and> j < length time
      \<longrightarrow> jgt (foldl enforceStepExact time [1..<length time] ! j)
            (foldl enforceStepExact time [1..<length time] ! (j - 1))"
    unfolding increasingUpTo_def n [symmetric] by simp
  moreover have "i \<le> n"
    using assms(3) n by simp
  ultimately show ?thesis
    using assms(2,3) by blast
qed

section \<open>Properties of parsing and cleaning\<close>

text \<open>
  C1 (as stated it fails): a row with a finite time and a finite first channel is not
  retained when another channel is \<open>NaN\<close>; the cleaned columns stay empty.
\<close>

theorem C1_one_finite_channel_counterexample:
  "isFiniteNum (r_time_s \<lparr>r_time_s = Num 0, r_tag1_residual_rad = Num 1, r_tag2_residual_rad = NaN,
       r_tag1_detrend_rad = Num 1, r_tag2_detrend_rad = Num 1\<rparr>)
   \<and> isFiniteNum (r_tag1_residual_rad \<lparr>r_time_s = Num 0, r_tag1_residual_rad = Num 1,
       r_tag2_residual_rad = NaN, r_tag1_detrend_rad = Num 1, r_tag2_detrend_rad = Num 1\<rparr>)
   \<and> c_time (collectRows [\<lparr>r_time_s = Num 0, r_tag1_residual_rad = Num 1, r_tag2_residual_rad = NaN,
       r_tag1_detrend_rad = Num 1, r_tag2_detrend_rad = Num 1\<rparr>]) = []"
  by (simp add: collectRows_def pushRow_def emptyColumns_def isFiniteNum_def
      NumberIsFinite_def NumberIsNaN_def)

text \<open>
  C1 (amended): the cleaning loop retains exactly the rows whose time value and all four
  channel values are finite, in their order, and no others: each cleaned column is the
  column of those rows.
\<close>

theorem C1_collectRows_all_finite:
  "collectRows raw =
     \<lparr>c_time = map r_time_s (filter rowFinite raw),
      c_series = \<lparr>
        tag1_residual_rad = map r_tag1_residual_rad (filter rowFinite raw),
        tag2_residual_rad = map r_tag2_residual_rad (filter rowFinite raw),
        tag1_detrend_rad = map r_tag1_detrend_rad (filter rowFinite raw),
        tag2_detrend_rad = map r_tag2_detrend_rad (filter rowFinite raw)\<rparr>\<rparr>"
  unfolding collectRows_def
  by (simp add: foldl_pushRow emptyColumns_def)

theorem C1_collectRows_all_finite_witness:
  "collectRows
     [\<lparr>r_time_s = Num 0, r_tag1_residual_rad = Num 1, r_tag2_residual_rad = NaN,
       r_tag1_detrend_rad = Num 1, r_tag2_detrend_rad = Num 1\<rparr>,
      \<lparr>r_time_s = Num 2, r_tag1_residual_rad = Num 3, r_tag2_residual_rad = Num 4,
       r_tag1_detrend_rad = Num 5, r_tag2_detrend_rad = Num 6\<rparr>]
   = \<lparr>c_time = [Num 2],
      c_series = \<lparr>tag1_residual_rad = [Num 3], tag2_residual_rad = [Num 4],
                   tag1_detrend_rad = [Num 5], tag2_detrend_rad = [Num 6]\<rparr>\<rparr>"
  using C1_collectRows_all_finite
    [of "[\<lparr>r_time_s = Num 0, r_tag1_residual_rad = Num 1, r_tag2_residual_rad = NaN,
       r_tag1_detrend_rad = Num 1, r_tag2_detrend_rad = Num 1\<rparr>,
      \<lparr>r_time_s = Num 2, r_tag1_residual_rad = Num 3, r_tag2_residual_rad = Num 4,
       r_tag1_detrend_rad = Num 5, r_tag2_detrend_rad = Num 6\<rparr>]"]
  by (simp add: rowFinite_def isFiniteNum_def NumberIsFinite_def NumberIsNaN_def)

text \<open>
  C8: after the repair of every non-increasing step the cleaned time sequence is to be
  strictly increasing, \<open>time[i] > time[i - 1]\<close> for every \<open>i > 0\<close>. The code breaks
  this for large time stamps: a file of eight rows that all carry the time stamp
  \<open>1700000000000\<close> passes the cleaning, and the repair leaves the time column as it
  was, because \<open>1700000000000 + 1e-6\<close> rounds back to \<open>1700000000000\<close>. The cleaned
  time sequence is constant, not strictly increasing.
\<close>

theorem C8_repair_absorbed_at_epoch_ms:
  "parseFile needed
     (replicate 8 \<lparr>r_time_s = Num 1700000000000, r_tag1_residual_rad = Num 0,
        r_tag2_residual_rad = Num 0, r_tag1_detrend_rad = Num 0, r_tag2_detrend_rad = Num 0\<rparr>)
   = Inr \<lparr>c_time = replicate 8 (Num 1700000000000),
          c_series = \<lparr>tag1_residual_rad = replicate 8 (Num 0),
                       tag2_residual_rad = replicate 8 (Num 0),
                       tag1_detrend_rad = replicate 8 (Num 0),
                       tag2_detrend_rad = replicate 8 (Num 0)\<rparr>\<rparr>"
proof -
  let ?r = "\<lparr>r_time_s = Num 1700000000000, r_tag1_residual_rad = Num 0,
        r_tag2_residual_rad = Num 0, r_tag1_detrend_rad = Num 0, r_tag2_detrend_rad = Num 0\<rparr>"
  have fin: "rowFinite ?r"
    by (simp add: rowFinite_def isFiniteNum_def NumberIsFinite_def NumberIsNaN_def)
  have cols: "collectRows (replicate 8 ?r) =
      \<lparr>c_time = replicate 8 (Num 1700000000000),
       c_series = \<lparr>tag1_residual_rad = replicate 8 (Num 0),
                    tag2_residual_rad = replicate 8 (Num 0),
                    tag1_detrend_rad = replicate 8 (Num 0),
                    tag2_detrend_rad = replicate 8 (Num 0)\<rparr>\<rparr>"
    unfolding collectRows_def foldl_pushRow using fin
    by (simp add: emptyColumns_def)
  have fold: "foldl enforceStep (replicate 8 (Num 1700000000000)) is
      = replicate 8 (Num 1700000000000)" for "is"
    by (induction "is") (simp_all add: enforceStep_epoch_ms)
  have miss: "filter (\<lambda>c. c \<notin> set needed) needed = []"
    by simp
  show ?thesis
    unfolding parseFile_def miss cols
    by (simp add: enforceIncreasing_def fold)
qed

section \<open>Properties of the autocorrelation half-life\<close>

lemma fl64_0 [simp]: "fl64 0 = Num 0"
  by (simp add: fl64_def)






text \<open>
  When the mean is rounded off the constant the centred values are not 0. For three
  samples at \<open>1700000000000.1\<close>, the double \<open>1700000000000 + 205 / 2048\<close>, the sum of
  the three rounds to \<open>5100000000000 + 77 / 256\<close> and the mean to
  \<open>1700000000000 + 411 / 4096\<close>; every centred value is \<open>- 1 / 4096\<close>, the lag-0 energy
  \<open>3 / 2 ^ 24\<close> passes the guard, and the result is the lag 1.
\<close>

lemma autocorrDecayHalf_rounded_mean:
  "autocorrDecayHalf (replicate 3 (Num (1700000000000 + 205 / 2048))) = 1"
proof -
  let ?c = "1700000000000 + 205 / 2048 :: real"
  have s1: "fl64 ?c = Num ?c"
    by (rule fl64_exact [of _ 3481600000000205 "- 11"]) (simp_all add: power_int_minus)
  have s2: "fl64 (?c + ?c) = Num (?c + ?c)"
    by (rule fl64_exact [of _ 3481600000000205 "- 10"]) (simp_all add: power_int_minus)
  have u3: "ulp_exp (?c + ?c + ?c) = - 10"
    using ulp_exp_eq [of 42 "?c + ?c + ?c"] by simp
  have s3: "fl64 (?c + ?c + ?c) = Num (5100000000000 + 77 / 256)"
    unfolding fl64_def u3 by (simp add: round_even_def Let_def power_int_minus)
  have um: "ulp_exp ((5100000000000 + 77 / 256) / 3) = - 12"
    using ulp_exp_eq [of 40 "(5100000000000 + 77 / 256) / 3"] by simp
  have m: "fl64 ((5100000000000 + 77 / 256) / 3) = Num (1700000000000 + 411 / 4096)"
    unfolding fl64_def um by (simp add: round_even_def Let_def power_int_minus)
  have sum: "jsum (replicate 3 (Num ?c)) = Num (5100000000000 + 77 / 256)"
    unfolding jsum_def numeral_3_eq_3 replicate.simps foldl.simps jadd.simps
    using s1 s2 s3 by simp
  have mean: "jdiv (jsum (replicate 3 (Num ?c))) (Num (real 3)) = Num (1700000000000 + 411 / 4096)"
    unfolding sum using m by simp
  have d: "fl64 (- (1 / 4096)) = Num (- (1 / 4096))"
    by (rule fl64_exact [of _ "- 1" "- 12"]) (simp_all add: power_int_minus)
  have xc: "map (\<lambda>v. jsub v (Num (1700000000000 + 411 / 4096))) (replicate 3 (Num ?c))
      = replicate 3 (Num (- (1 / 4096)))"
    using d by (simp add: jsub_def)
  have p: "fl64 (1 / 16777216) = Num (1 / 16777216)"
    by (rule fl64_exact [of _ 1 "- 24"]) (simp_all add: power_int_minus)
  have p2: "fl64 (1 / 8388608) = Num (1 / 8388608)"
    by (rule fl64_exact [of _ 1 "- 23"]) (simp_all add: power_int_minus)
  have p3: "fl64 (3 / 16777216) = Num (3 / 16777216)"
    by (rule fl64_exact [of _ 3 "- 24"]) (simp_all add: power_int_minus)
  have one: "fl64 1 = Num 1"
    by (rule fl64_exact [of _ 1 0]) simp_all
  have ac: "map (autocov (replicate 3 (Num (- (1 / 4096)))) 3) [0..<3]
      = [Num (3 / 16777216), Num (1 / 8388608), Num (1 / 16777216)]"
    using p p2 p3 by (simp add: autocov_def nthJ_def numeral_3_eq_3 upt_rec)
  have norm: "normalizeInPlace [Num (3 / 16777216), Num (1 / 8388608), Num (1 / 16777216)] 3
      = [Num 1, Num (1 / 8388608), Num (1 / 16777216)]"
    using p p2 one by (simp add: normalizeInPlace_def nthJ_def numeral_3_eq_3 upt_rec)
  show ?thesis
    unfolding autocorrDecayHalf_def Let_def length_replicate mean xc ac norm
    by (simp add: EPS_value nthJ_def upt_rec)
qed




text \<open>
  C9: for every input series \<open>x\<close> of length \<open>n\<close>, autocorrDecayHalf returns a lag
  between 0 and \<open>n\<close> inclusive (the result is a natural number: each return statement
  gives the length, the constant 0 or a loop index).
\<close>

theorem C9_autocorrDecayHalf_range:
  "autocorrDecayHalf x \<le> length x"
proof -
  have "i < n" if "find P [1..<n] = Some i" for P i n
    using that by (auto simp: find_Some_iff)
  then show ?thesis
    by (auto simp: autocorrDecayHalf_def Let_def split: option.splits dest!: less_imp_le)
qed

theorem C9_autocorrDecayHalf_range_witness:
  "autocorrDecayHalf [Num 1, Num 1, Num 1] \<le> length [Num 1, Num 1, Num (1::real)]"
  using C9_autocorrDecayHalf_range [of "[Num 1, Num 1, Num 1]"] by simp
section \<open>Properties of the spectral and statistical features\<close>

lemma rfftPower_empty:
  assumes "\<not> (isFiniteNum fs \<and> jgt fs (Num 0)) \<or> length (filter isFiniteNum x) < 2"
  shows "rfftPower T x fs = \<lparr>sp_freqs = [], sp_power = []\<rparr>"
proof (cases fs)
  case (Num f)
  then show ?thesis
    using assms by (auto simp: rfftPower_def Let_def jgt_def jle_def)
qed (simp_all add: rfftPower_def isFiniteNum_def NumberIsFinite_def NumberIsNaN_def)

lemma spectralFeatures_early_return:
  assumes "\<not> (isFiniteNum fs \<and> jgt fs (Num 0)) \<or> length x < 8
           \<or> length (filter isFiniteNum x) < 2"
  shows "spectralFeatures T x fs = nanSpectral"
proof (cases "\<not> isFiniteNum fs \<or> length x < 8")
  case True
  then show ?thesis
    by (auto simp: spectralFeatures_def)
next
  case False
  with assms have "\<not> (isFiniteNum fs \<and> jgt fs (Num 0)) \<or> length (filter isFiniteNum x) < 2"
    by blast
  then have "rfftPower T x fs = \<lparr>sp_freqs = [], sp_power = []\<rparr>"
    by (rule rfftPower_empty)
  then show ?thesis
    by (simp add: spectralFeatures_def Let_def)
qed

text \<open>
  C7: for a cleaned value series (every entry finite, as computeSeriesFeatures passes
  it), spectralFeatures returns the not-a-number sentinel for all of its spectral fields
  whenever the sampling-rate estimate \<open>fs\<close> is not a finite positive number or fewer
  than 8 finite samples remain in the series. The function has no failing path: it is
  total, and on these inputs it returns before the transform is set up, whatever the
  transform is.
\<close>

theorem C7_spectralFeatures_sentinel:
  assumes "list_all isFiniteNum x"
    and "\<not> (isFiniteNum fs \<and> jgt fs (Num 0)) \<or> length (filter isFiniteNum x) < 8"
  shows "spectralFeatures T x fs = nanSpectral"
proof -
  have "filter isFiniteNum x = x"
    using assms(1) by (simp add: list_all_iff)
  with assms(2) have "\<not> (isFiniteNum fs \<and> jgt fs (Num 0)) \<or> length x < 8"
    by simp
  then show ?thesis
    by (intro spectralFeatures_early_return) blast
qed

theorem C7_spectralFeatures_sentinel_witness:
  "list_all isFiniteNum (replicate 8 (Num 1))
   \<and> list_all isFiniteNum [Num 1, Num 2, Num 3, Num 4, Num 5, Num 6, Num 7]
   \<and> length (filter isFiniteNum [Num 1, Num 2, Num 3, Num 4, Num 5, Num 6, Num 7]) < 8
   \<and> spectralFeatures dft (replicate 8 (Num 1)) (Num 0) = nanSpectral
   \<and> spectralFeatures dft (replicate 8 (Num 1)) (Num (- 2)) = nanSpectral
   \<and> spectralFeatures dft (replicate 8 (Num 1)) PInf = nanSpectral
   \<and> spectralFeatures dft (replicate 8 (Num 1)) NaN = nanSpectral
   \<and> spectralFeatures dft [Num 1, Num 2, Num 3, Num 4, Num 5, Num 6, Num 7] (Num 10) = nanSpectral"
proof -
  have f8: "list_all isFiniteNum (replicate 8 (Num 1))"
    by (simp add: list_all_iff isFiniteNum_def NumberIsFinite_def NumberIsNaN_def)
  have f7: "list_all isFiniteNum [Num 1, Num 2, Num 3, Num 4, Num 5, Num 6, Num 7]"
    by (simp add: isFiniteNum_def NumberIsFinite_def NumberIsNaN_def)
  have a: "\<not> (isFiniteNum (Num 0) \<and> jgt (Num 0) (Num 0))"
    by simp
  have a': "\<not> (isFiniteNum (Num (- 2)) \<and> jgt (Num (- 2)) (Num 0))"
    by simp
  have b: "\<not> (isFiniteNum PInf \<and> jgt PInf (Num 0))"
    by (simp add: isFiniteNum_def NumberIsFinite_def)
  have b': "\<not> (isFiniteNum NaN \<and> jgt NaN (Num 0))"
    by (simp add: isFiniteNum_def NumberIsFinite_def)
  have c: "length (filter isFiniteNum [Num 1, Num 2, Num 3, Num 4, Num 5, Num 6, Num 7]) < 8"
    by (simp add: isFiniteNum_def NumberIsFinite_def NumberIsNaN_def)
  show ?thesis
    using C7_spectralFeatures_sentinel [OF f8, of "Num 0" dft]
      C7_spectralFeatures_sentinel [OF f8, of "Num (- 2)" dft]
      C7_spectralFeatures_sentinel [OF f8, of PInf dft]
      C7_spectralFeatures_sentinel [OF f8, of NaN dft]
      C7_spectralFeatures_sentinel [OF f7, of "Num 10" dft]
      f8 f7 a a' b b' c
    by blast
qed

text \<open>
  C4 (as stated it fails): for a series of three samples the field \<open>n\<close> of the feature
  vector is the sample count 3, not the sentinel.
\<close>

theorem C4_count_field_counterexample:
  "fv_n (computeSeriesFeatures dft [Num 0, Num 1, Num 2] [Num 5, Num 6, Num 7]) = Num 3"
  by (simp add: computeSeriesFeatures_def isFiniteNum_def NumberIsFinite_def NumberIsNaN_def)

text \<open>
  C4 (amended): if the cleaned series length \<open>n\<close> (the smaller of the numbers of finite
  time and finite value entries) is less than 4, computeSeriesFeatures returns a feature
  vector in which the field \<open>n\<close> is that length and every other field is the
  not-a-number sentinel.
\<close>

theorem C4_features_short_series:
  assumes "min (length (filter isFiniteNum time)) (length (filter isFiniteNum yIn)) < 4"
  shows "computeSeriesFeatures T time yIn =
     \<lparr>fv_fs = NaN,
      fv_n = Num (real (min (length (filter isFiniteNum time)) (length (filter isFiniteNum yIn)))),
      fv_mean = NaN, fv_std = NaN, fv_mad = NaN, fv_rng = NaN, fv_skew = NaN,
      fv_kurt = NaN, fv_cv = NaN, fv_slope = NaN, fv_slope_r2 = NaN, fv_ac_half = NaN,
      fv_spectral_centroid = NaN, fv_spectral_entropy = NaN, fv_dom_freq = NaN,
      fv_dom_power = NaN, fv_band_0_2 = NaN, fv_band_2_5 = NaN, fv_band_5_10 = NaN,
      fv_band_10_20 = NaN, fv_low_mid_ratio = NaN\<rparr>"
  using assms unfolding computeSeriesFeatures_def Let_def by (simp only: if_True)

theorem C4_features_short_series_witness:
  "computeSeriesFeatures dft [Num 0, Num 1, Num 2, PInf] [Num 5, NaN, Num 6, Num 7] =
     \<lparr>fv_fs = NaN, fv_n = Num 3,
      fv_mean = NaN, fv_std = NaN, fv_mad = NaN, fv_rng = NaN, fv_skew = NaN,
      fv_kurt = NaN, fv_cv = NaN, fv_slope = NaN, fv_slope_r2 = NaN, fv_ac_half = NaN,
      fv_spectral_centroid = NaN, fv_spectral_entropy = NaN, fv_dom_freq = NaN,
      fv_dom_power = NaN, fv_band_0_2 = NaN, fv_band_2_5 = NaN, fv_band_5_10 = NaN,
      fv_band_10_20 = NaN, fv_low_mid_ratio = NaN\<rparr>"
proof -
  have n: "min (length (filter isFiniteNum [Num 0, Num 1, Num 2, PInf]))
             (length (filter isFiniteNum [Num 5, NaN, Num 6, Num 7])) = 3"
    by (simp add: isFiniteNum_def NumberIsFinite_def NumberIsNaN_def)
  show ?thesis
    using C4_features_short_series [of "[Num 0, Num 1, Num 2, PInf]" "[Num 5, NaN, Num 6, Num 7]" dft]
    unfolding n by simp
qed

section \<open>Properties of the sliding-window captioner\<close>

text \<open>
  The window of index \<open>k\<close> starts at \<open>T0\<close> with the hop added \<open>k\<close> times, every sum
  rounded, and every scanned start is at most the rounded bound \<^verbatim>\<open>T1 - 1e-9\<close>.
\<close>

lemma windowStarts_members:
  assumes "windowStarts T1 hop st k = Some ws" and "(j, start) \<in> set ws"
  shows "\<exists>i. j = k + i \<and> start = ((\<lambda>v. jadd v hop) ^^ i) st
            \<and> jle start (jsub T1 literal_1e_9)"
  using assms
proof (induction ws arbitrary: st k)
  case Nil
  then show ?case by simp
next
  case (Cons a ws)
  from Cons.prems(1) have c: "jle st (jsub T1 literal_1e_9)"
    by (subst (asm) windowStarts.simps) (auto split: if_splits)
  with Cons.prems(1) have a: "a = (k, st)"
    and rest: "windowStarts T1 hop (jadd st hop) (Suc k) = Some ws"
    by (subst (asm) windowStarts.simps; auto simp: bind_eq_Some_conv)+
  show ?case
  proof (cases "(j, start) = a")
    case True
    with a c have "j = k + 0 \<and> start = ((\<lambda>v. jadd v hop) ^^ 0) st
        \<and> jle start (jsub T1 literal_1e_9)"
      by simp
    then show ?thesis by blast
  next
    case False
    with Cons.prems(2) have "(j, start) \<in> set ws" by simp
    from Cons.IH [OF rest this] obtain i where i: "j = Suc k + i"
        "start = ((\<lambda>v. jadd v hop) ^^ i) (jadd st hop)"
        "jle start (jsub T1 literal_1e_9)"
      by blast
    then have "j = k + Suc i \<and> start = ((\<lambda>v. jadd v hop) ^^ Suc i) st
        \<and> jle start (jsub T1 literal_1e_9)"
      by (simp only: funpow_Suc_right o_apply add_Suc_right add_Suc)
    then show ?thesis by blast
  qed
qed

lemma windowIdx_interval:
  assumes "time = map Num ts" and "ts \<noteq> []"
  shows "(i \<in> set (windowIdx time (nthJ time (length time - 1)) start W)
            \<longleftrightarrow> i < length ts \<and> jle start (Num (ts ! i))
                \<and> (if jlt (jadd start W) (Num (last ts)) then jlt (Num (ts ! i)) (jadd start W)
                    else jle (Num (ts ! i)) (jadd start W)))
         \<and> (sorted ts \<and> i \<in> set (windowIdx time (nthJ time (length time - 1)) start W)
                \<and> Num (ts ! i) = jadd start W \<longrightarrow> jadd start W = Num (last ts))"
proof -
  have T1: "nthJ time (length time - 1) = Num (last ts)"
    unfolding assms(1) using assms(2) by (rule nthJ_last)
  have mem: "i \<in> set (windowIdx time (Num (last ts)) start W)
            \<longleftrightarrow> i < length ts \<and> jle start (Num (ts ! i))
                \<and> (if jlt (jadd start W) (Num (last ts)) then jlt (Num (ts ! i)) (jadd start W)
                    else jle (Num (ts ! i)) (jadd start W))"
    using assms(1) by (auto simp: windowIdx_def inWin_def nthJ_def jge_def)
  have "jadd start W = Num (last ts)"
    if srt: "sorted ts" and i: "i \<in> set (windowIdx time (Num (last ts)) start W)"
      and e: "Num (ts ! i) = jadd start W"
  proof -
    from i mem have il: "i < length ts" and ge: "\<not> ts ! i < last ts"
      unfolding e [symmetric] by (auto split: if_splits)
    have "ts ! i \<le> ts ! (length ts - 1)"
      using srt il by (intro sorted_nth_mono) auto
    then have "ts ! i \<le> last ts"
      using assms(2) by (simp add: last_conv_nth)
    with ge have "ts ! i = last ts" by simp
    then show ?thesis using e by simp
  qed
  with mem show ?thesis
    unfolding T1 by blast
qed

text \<open>
  The scan of the time stamps 0, 1, 2, 3 with the hop 1/2. The bound \<^verbatim>\<open>T1 - 1e-9\<close> is
  the double \<open>6755399438803944 / 2 ^ 51\<close>, just below 3.
\<close>

lemma three_minus_1e_9: "jsub (Num 3) literal_1e_9 = Num (6755399438803944 / 2 ^ 51)"
proof -
  have u: "ulp_exp (3 + - (4835703278458517 / 2 ^ 82)) = - 51"
    using ulp_exp_eq [of 1 "3 + - (4835703278458517 / 2 ^ 82)"] by simp
  have "fl64 (3 + - (4835703278458517 / 2 ^ 82)) = Num (6755399438803944 / 2 ^ 51)"
    unfolding fl64_def u by (simp add: round_even_def Let_def power_int_minus)
  then show ?thesis
    unfolding jsub_def literal_1e_9_value jneg.simps jadd.simps .
qed

lemma windowStarts_four_samples:
  "windowStarts (nthJ [Num 0, Num 1, Num 2, Num 3] (length [Num 0, Num 1, Num 2, Num (3::real)] - 1))
     (Num (1 / 2)) (nthJ [Num 0, Num 1, Num 2, Num 3] 0) 0
     = Some [(0, Num 0), (1, Num (1 / 2)), (2, Num 1), (3, Num (3 / 2)), (4, Num 2), (5, Num (5 / 2))]"
  by (simp add: windowStarts.simps three_minus_1e_9 nthJ_def fl64_sixteenths)

text \<open>
  C2 (as stated it fails): for the time stamps 0, 1, 2, 3 with window 1 and hop 1/2 the
  scan visits six windows. The window of index 4 starts at 2 and selects the samples of
  indices 2 and 3; the sample of index 3 lies exactly at its end boundary 3. It is not
  the final admissible window, which is the window of index 5 starting at 5/2. (All
  these numbers are doubles, and no sum here is rounded.)
\<close>

theorem C2_closed_window_before_last_counterexample:
  "windowStarts (nthJ [Num 0, Num 1, Num 2, Num 3] 3) (Num (1 / 2)) (nthJ [Num 0, Num 1, Num 2, Num 3] 0) 0
     = Some [(0, Num 0), (1, Num (1 / 2)), (2, Num 1), (3, Num (3 / 2)), (4, Num 2), (5, Num (5 / 2))]
   \<and> windowIdx [Num 0, Num 1, Num 2, Num 3] (nthJ [Num 0, Num 1, Num 2, Num 3] 3) (Num 2) (Num 1) = [2, 3]
   \<and> nthJ [Num 0, Num 1, Num 2, Num 3] 3 = jadd (Num 2) (Num 1)"
  by (simp add: windowStarts.simps three_minus_1e_9 windowIdx_def inWin_def nthJ_def upt_rec
      fl64_sixteenths)

text \<open>
  C2 (amended): in slidingWindowCaptions over finite time stamps, every scanned window,
  of index \<open>k\<close>, starts at \<open>T0\<close> with the hop added \<open>k\<close> times (each sum rounded to a
  double) and at or before the rounded bound \<^verbatim>\<open>T1 - 1e-9\<close>; its end is the rounded sum
  \<open>start + W\<close>. When the end lies before the last time stamp the window selects the
  samples of the half-open interval \<open>[start, end)\<close>, and otherwise those of the closed
  interval \<open>[start, end]\<close>, whether or not it is the final window. For time stamps in
  increasing order a window includes a sample exactly at its end boundary only when that
  boundary is the last time stamp.
\<close>

theorem C2_window_interval:
  assumes "time = map Num ts" and "ts \<noteq> []"
    and "windowStarts (nthJ time (length time - 1)) hop (nthJ time 0) 0 = Some ws"
    and "(k, start) \<in> set ws"
  shows "start = ((\<lambda>v. jadd v hop) ^^ k) (Num (hd ts))
       \<and> jle start (jsub (Num (last ts)) literal_1e_9)
       \<and> (i \<in> set (windowIdx time (nthJ time (length time - 1)) start W)
            \<longleftrightarrow> i < length ts \<and> jle start (Num (ts ! i))
                \<and> (if jlt (jadd start W) (Num (last ts)) then jlt (Num (ts ! i)) (jadd start W)
                    else jle (Num (ts ! i)) (jadd start W)))
       \<and> (sorted ts \<and> i \<in> set (windowIdx time (nthJ time (length time - 1)) start W)
                \<and> Num (ts ! i) = jadd start W \<longrightarrow> jadd start W = Num (last ts))"
proof -
  have T1: "nthJ time (length time - 1) = Num (last ts)"
    unfolding assms(1) using assms(2) by (rule nthJ_last)
  have T0: "nthJ time 0 = Num (hd ts)"
    using assms(1,2) by (simp add: nthJ_def hd_conv_nth)
  from assms(3) have "windowStarts (Num (last ts)) hop (Num (hd ts)) 0 = Some ws"
    unfolding T1 T0 .
  from windowStarts_members [OF this assms(4)]
  obtain j where "k = 0 + j" and j: "start = ((\<lambda>v. jadd v hop) ^^ j) (Num (hd ts))"
      "jle start (jsub (Num (last ts)) literal_1e_9)"
    by blast
  then have st: "start = ((\<lambda>v. jadd v hop) ^^ k) (Num (hd ts))"
      "jle start (jsub (Num (last ts)) literal_1e_9)"
    by simp_all
  show ?thesis
    using st windowIdx_interval [OF assms(1,2), of i start W] by blast
qed

theorem C2_window_interval_witness:
  "(1, Num (1 / 2)) \<in> set [(0, Num 0), (1, Num (1 / 2)), (2, Num 1), (3, Num (3 / 2)), (4, Num 2), (5 :: nat, Num (5 / 2))]
   \<and> (4, Num 2) \<in> set [(0, Num 0), (1, Num (1 / 2)), (2, Num 1), (3, Num (3 / 2)), (4, Num 2), (5 :: nat, Num (5 / 2))]
   \<and> Num 2 = ((\<lambda>v. jadd v (Num (1 / 2))) ^^ 4) (Num (hd [0, 1, 2, 3]))
   \<and> jle (Num 2) (jsub (Num (last [0, 1, 2, 3])) literal_1e_9)
   \<and> 1 \<in> set (windowIdx [Num 0, Num 1, Num 2, Num 3] (Num 3) (Num (1 / 2)) (Num 1))
   \<and> 2 \<notin> set (windowIdx [Num 0, Num 1, Num 2, Num 3] (Num 3) (Num (1 / 2)) (Num 1))
   \<and> 3 \<in> set (windowIdx [Num 0, Num 1, Num 2, Num 3] (Num 3) (Num 2) (Num 1))
   \<and> sorted [0, 1, 2, 3 :: real]
   \<and> Num ([0, 1, 2, 3 :: real] ! 3) = jadd (Num 2) (Num 1)
   \<and> jadd (Num 2) (Num 1) = Num (last [0, 1, 2, 3 :: real])"
proof -
  have t: "[Num 0, Num 1, Num 2, Num 3] = map Num [0, 1, 2, 3]"
    by simp
  have l: "nthJ [Num 0, Num 1, Num 2, Num 3] (length [Num 0, Num 1, Num 2, Num (3::real)] - 1) = Num 3"
    by (simp add: nthJ_def)
  have ne: "[0, 1, 2, 3 :: real] \<noteq> []"
    by simp
  have m1: "(1, Num (1 / 2)) \<in> set [(0, Num 0), (1, Num (1 / 2)), (2, Num 1), (3, Num (3 / 2)),
      (4, Num 2), (5 :: nat, Num (5 / 2))]"
    and m4: "(4, Num 2) \<in> set [(0, Num 0), (1, Num (1 / 2)), (2, Num 1), (3, Num (3 / 2)),
      (4, Num 2), (5 :: nat, Num (5 / 2))]"
    by simp_all
  have e1: "jadd (Num (1 / 2)) (Num 1) = Num (3 / 2)" and e4: "jadd (Num 2) (Num 1) = Num 3"
    by (simp_all add: fl64_sixteenths)
  have f1: "((\<lambda>v. jadd v (Num (1 / 2))) ^^ 1) (Num (hd [0, 1, 2, 3])) = Num (1 / 2)"
    and f4: "((\<lambda>v. jadd v (Num (1 / 2))) ^^ 4) (Num (hd [0, 1, 2, 3])) = Num 2"
    by (simp_all add: numeral_eq_Suc fl64_sixteenths)
  show ?thesis
    using C2_window_interval [OF t ne windowStarts_four_samples m1, of 1 "Num 1"]
      C2_window_interval [OF t ne windowStarts_four_samples m1, of 2 "Num 1"]
      C2_window_interval [OF t ne windowStarts_four_samples m4, of 3 "Num 1"]
    unfolding l e1 e4 f1 f4 by (simp add: three_minus_1e_9)
qed

text \<open>
  C10: slidingWindowCaptions returns the empty caption list whenever the time sequence
  is absent or holds fewer than 2 samples, for every value series and every choice of
  the window and hop parameters (also those for which a longer series would never
  finish the scan).
\<close>

theorem C10_no_captions_without_two_samples:
  assumes "case time of None \<Rightarrow> True | Some ts \<Rightarrow> length ts < 2"
  shows "slidingWindowCaptions time y winSec hopSec = Some []"
  using assms by (simp add: slidingWindowCaptions_def split: option.splits)

theorem C10_no_captions_without_two_samples_witness:
  "slidingWindowCaptions None [Num 1, Num 2] (Num 1) (Num (1 / 2)) = Some []
   \<and> slidingWindowCaptions (Some []) [] NaN (Num 0) = Some []
   \<and> slidingWindowCaptions (Some [Num 7]) [Num 1] (Num 1) (Num (- 1)) = Some []"
  using C10_no_captions_without_two_samples [of None "[Num 1, Num 2]" "Num 1" "Num (1 / 2)"]
    C10_no_captions_without_two_samples [of "Some []" "[]" NaN "Num 0"]
    C10_no_captions_without_two_samples [of "Some [Num 7]" "[Num 1]" "Num 1" "Num (- 1)"]
  by simp

section \<open>Properties of the row resolution\<close>

lemma findIndex_Some:
  "findIndex P xs = Some i \<Longrightarrow> i < length xs \<and> find P xs = Some (xs ! i)"
  by (induction xs arbitrary: i) (auto split: if_splits)

lemma findIndex_map: "findIndex P (map f xs) = findIndex (\<lambda>x. P (f x)) xs"
  by (induction xs) simp_all

lemma findIndex_None: "findIndex P xs = None \<Longrightarrow> find P xs = None"
  by (induction xs) (auto split: if_splits)

lemma scanEnd_Num:
  "scanEnd (Num ne) (map Num xs) i ei =
     (if takeWhile (\<lambda>t. t \<le> ne) xs = [] then ei
      else i + length (takeWhile (\<lambda>t. t \<le> ne) xs) - 1)"
  by (induction xs arbitrary: i ei) auto

lemma sorted_filter_takeWhile:
  "sorted xs \<Longrightarrow> filter (\<lambda>t. t \<le> (ne::real)) xs = takeWhile (\<lambda>t. t \<le> ne) xs"
proof (induction xs)
  case Nil
  show ?case by simp
next
  case (Cons x xs)
  show ?case
  proof (cases "x \<le> ne")
    case True
    with Cons show ?thesis by simp
  next
    case False
    with Cons.prems have "\<forall>t\<in>set xs. \<not> t \<le> ne" by auto
    then have "filter (\<lambda>t. t \<le> ne) xs = []" by (simp add: filter_empty_conv)
    with False show ?thesis by simp
  qed
qed

lemma takeWhile_drop:
  assumes "n \<le> length (takeWhile P xs)"
  shows "takeWhile P (drop n xs) = drop n (takeWhile P xs)"
proof -
  have "drop n (takeWhile P xs @ dropWhile P xs) = drop n (takeWhile P xs) @ dropWhile P xs"
    using assms by (simp del: takeWhile_dropWhile_id)
  then have "drop n xs = drop n (takeWhile P xs) @ dropWhile P xs"
    by simp
  then have "takeWhile P (drop n xs) = takeWhile P (drop n (takeWhile P xs) @ dropWhile P xs)"
    by simp
  also have "\<dots> = drop n (takeWhile P xs) @ takeWhile P (dropWhile P xs)"
    by (rule takeWhile_append2) (auto dest: in_set_dropD set_takeWhileD)
  also have "takeWhile P (dropWhile P xs) = []"
    by (induction xs) auto
  finally show ?thesis by simp
qed

lemma sorted_prefix_le:
  assumes "sorted xs" "i < length xs" "xs ! i \<le> (ne::real)"
  shows "i < length (takeWhile (\<lambda>t. t \<le> ne) xs)"
proof (rule ccontr)
  assume "\<not> i < length (takeWhile (\<lambda>t. t \<le> ne) xs)"
  then have m: "length (takeWhile (\<lambda>t. t \<le> ne) xs) \<le> i" by simp
  with assms(2) have "length (takeWhile (\<lambda>t. t \<le> ne) xs) < length xs" by simp
  then have "\<not> xs ! length (takeWhile (\<lambda>t. t \<le> ne) xs) \<le> ne"
    by (rule nth_length_takeWhile)
  moreover have "xs ! length (takeWhile (\<lambda>t. t \<le> ne) xs) \<le> xs ! i"
    using assms(1,2) m by (intro sorted_nth_mono) auto
  ultimately show False using assms(3) by simp
qed

lemma scanEnd_sorted:
  assumes "sorted ts" "si < length ts"
  shows "scanEnd (Num ne) (drop si (map Num ts)) si si < length ts
    \<and> ts ! (scanEnd (Num ne) (drop si (map Num ts)) si si) =
       (if ts ! si \<le> ne then last (filter (\<lambda>t. t \<le> ne) ts) else ts ! si)"
proof (cases "ts ! si \<le> ne")
  case True
  let ?tw = "takeWhile (\<lambda>t. t \<le> ne) ts"
  have lt: "si < length ?tw"
    using assms True by (rule sorted_prefix_le)
  have d: "takeWhile (\<lambda>t. t \<le> ne) (drop si ts) = drop si ?tw"
    using lt by (intro takeWhile_drop) simp
  have ne: "drop si ?tw \<noteq> []" using lt by simp
  have e: "scanEnd (Num ne) (drop si (map Num ts)) si si = length ?tw - 1"
    using lt ne by (simp add: drop_map scanEnd_Num d)
  have le: "length ?tw \<le> length ts" by (rule length_takeWhile_le)
  have "?tw ! (length ?tw - 1) = ts ! (length ?tw - 1)"
    using lt by (intro takeWhile_nth) simp
  moreover have "?tw \<noteq> []" using lt by auto
  then have "last ?tw = ?tw ! (length ?tw - 1)" by (rule last_conv_nth)
  ultimately have "ts ! (length ?tw - 1) = last ?tw"
    by simp
  then show ?thesis
    using True e le lt assms(1) by (simp add: sorted_filter_takeWhile)
next
  case False
  then have "takeWhile (\<lambda>t. t \<le> ne) (drop si ts) = []"
    using assms(2) by (simp add: takeWhile_eq_Nil_iff hd_drop_conv_nth)
  then show ?thesis
    using False assms(2) by (simp add: drop_map scanEnd_Num)
qed

text \<open>
  The bounds of a row depend on the caption only through its window index, and whether
  a window gives a caption depends only on the time stamps.
\<close>

lemma rowBounds_resolveRow:
  "rowBounds (resolveRow time WIN HOP c)
     = rowBounds (resolveRow time WIN HOP \<lparr>cap_window_index = cap_window_index c, cap_label = Constant\<rparr>)"
  by (simp add: rowBounds_def resolveRow_def Let_def)

lemma rowBounds_map_resolveRow:
  "map rowBounds (map (resolveRow time WIN HOP) caps)
     = map (\<lambda>k. rowBounds (resolveRow time WIN HOP \<lparr>cap_window_index = k, cap_label = Constant\<rparr>))
         (map cap_window_index caps)"
  by (induction caps) (simp_all add: rowBounds_resolveRow [symmetric])

lemma windowCaption_index:
  "map cap_window_index (windowCaption time y W T1 (k, s))
     = (if length (windowIdx time T1 s W) < 2 then [] else [k])"
  by (simp add: windowCaption_def Let_def)

text \<open>
  Eight samples at \<open>2 ^ 55\<close>, \<open>2 ^ 55 + 8\<close>, ..., \<open>2 ^ 55 + 56\<close>, consecutive doubles
  (from \<open>2 ^ 55\<close> on the doubles are the multiples of 8), with the window 16 and the hop
  11. The scan adds the hop to the start and rounds, which advances the start by 8 each
  time: the window of index \<open>k\<close> starts at \<open>2 ^ 55 + 8 * k\<close>. The nominal start of the
  merger is the rounded \<open>2 ^ 55 + 11 * k\<close>, which runs ahead of the scan. The bound
  \<^verbatim>\<open>T1 - 1e-9\<close> rounds to the last time stamp.
\<close>

lemma fl64_near_2_55:
  "fl64 36028797018963979 = Num 36028797018963976"
  "fl64 36028797018963987 = Num 36028797018963984"
  "fl64 36028797018963990 = Num 36028797018963992"
  "fl64 36028797018963995 = Num 36028797018963992"
  "fl64 36028797018964001 = Num 36028797018964000"
  "fl64 36028797018964003 = Num 36028797018964000"
  "fl64 36028797018964011 = Num 36028797018964008"
  "fl64 36028797018964012 = Num 36028797018964016"
  "fl64 36028797018964019 = Num 36028797018964016"
  "fl64 36028797018964023 = Num 36028797018964024"
  "fl64 36028797018964027 = Num 36028797018964024"
  "fl64 36028797018964034 = Num 36028797018964032"
  "fl64 36028797018964035 = Num 36028797018964032"
  using fl64_binade [of 55 36028797018963979]
    fl64_binade [of 55 36028797018963987]
    fl64_binade [of 55 36028797018963990]
    fl64_binade [of 55 36028797018963995]
    fl64_binade [of 55 36028797018964001]
    fl64_binade [of 55 36028797018964003]
    fl64_binade [of 55 36028797018964011]
    fl64_binade [of 55 36028797018964012]
    fl64_binade [of 55 36028797018964019]
    fl64_binade [of 55 36028797018964023]
    fl64_binade [of 55 36028797018964027]
    fl64_binade [of 55 36028797018964034]
    fl64_binade [of 55 36028797018964035]
  by (simp_all add: round_even_def Let_def)

lemma last_minus_1e_9_near_2_55: "jsub (Num 36028797018964024) literal_1e_9 = Num 36028797018964024"
proof -
  have "fl64 (36028797018964024 + - (4835703278458517 / 2 ^ 82)) = Num 36028797018964024"
    using fl64_binade [of 55 "36028797018964024 + - (4835703278458517 / 2 ^ 82)"]
    by (simp add: round_even_def Let_def)
  then show ?thesis
    unfolding jsub_def literal_1e_9_value jneg.simps jadd.simps .
qed

lemma windowStarts_near_2_55:
  "windowStarts (Num 36028797018964024) (Num 11) (Num 36028797018963968) 0
     = Some [(0, Num 36028797018963968), (1, Num 36028797018963976), (2, Num 36028797018963984), (3, Num 36028797018963992), (4, Num 36028797018964000), (5, Num 36028797018964008), (6, Num 36028797018964016), (7, Num 36028797018964024)]"
  by (simp add: windowStarts.simps last_minus_1e_9_near_2_55 fl64_near_2_55)

lemma windowIdx_near_2_55:
  "windowIdx [Num 36028797018963968, Num 36028797018963976, Num 36028797018963984, Num 36028797018963992, Num 36028797018964000, Num 36028797018964008, Num 36028797018964016, Num 36028797018964024] (Num 36028797018964024) (Num 36028797018963968) (Num 16) = [0, 1]"
  "windowIdx [Num 36028797018963968, Num 36028797018963976, Num 36028797018963984, Num 36028797018963992, Num 36028797018964000, Num 36028797018964008, Num 36028797018964016, Num 36028797018964024] (Num 36028797018964024) (Num 36028797018963976) (Num 16) = [1, 2]"
  "windowIdx [Num 36028797018963968, Num 36028797018963976, Num 36028797018963984, Num 36028797018963992, Num 36028797018964000, Num 36028797018964008, Num 36028797018964016, Num 36028797018964024] (Num 36028797018964024) (Num 36028797018963984) (Num 16) = [2, 3]"
  "windowIdx [Num 36028797018963968, Num 36028797018963976, Num 36028797018963984, Num 36028797018963992, Num 36028797018964000, Num 36028797018964008, Num 36028797018964016, Num 36028797018964024] (Num 36028797018964024) (Num 36028797018963992) (Num 16) = [3, 4]"
  "windowIdx [Num 36028797018963968, Num 36028797018963976, Num 36028797018963984, Num 36028797018963992, Num 36028797018964000, Num 36028797018964008, Num 36028797018964016, Num 36028797018964024] (Num 36028797018964024) (Num 36028797018964000) (Num 16) = [4, 5]"
  "windowIdx [Num 36028797018963968, Num 36028797018963976, Num 36028797018963984, Num 36028797018963992, Num 36028797018964000, Num 36028797018964008, Num 36028797018964016, Num 36028797018964024] (Num 36028797018964024) (Num 36028797018964008) (Num 16) = [5, 6, 7]"
  "windowIdx [Num 36028797018963968, Num 36028797018963976, Num 36028797018963984, Num 36028797018963992, Num 36028797018964000, Num 36028797018964008, Num 36028797018964016, Num 36028797018964024] (Num 36028797018964024) (Num 36028797018964016) (Num 16) = [6, 7]"
  "windowIdx [Num 36028797018963968, Num 36028797018963976, Num 36028797018963984, Num 36028797018963992, Num 36028797018964000, Num 36028797018964008, Num 36028797018964016, Num 36028797018964024] (Num 36028797018964024) (Num 36028797018964024) (Num 16) = [7]"
  by (simp_all add: windowIdx_def inWin_def nthJ_def upt_rec fl64_eights)

lemma captions_near_2_55:
  "map_option (map cap_window_index)
     (slidingWindowCaptions (Some [Num 36028797018963968, Num 36028797018963976, Num 36028797018963984, Num 36028797018963992, Num 36028797018964000, Num 36028797018964008, Num 36028797018964016, Num 36028797018964024]) y (Num 16) (Num 11))
   = Some [0, 1, 2, 3, 4, 5, 6]"
  by (simp add: slidingWindowCaptions_def Let_def nthJ_def windowStarts_near_2_55 map_concat
      windowCaption_index windowIdx_near_2_55)

lemma nominal_near_2_55:
  "nominalStart [Num 36028797018963968, Num 36028797018963976, Num 36028797018963984, Num 36028797018963992, Num 36028797018964000, Num 36028797018964008, Num 36028797018964016, Num 36028797018964024] (Num 11) 0 = Num 36028797018963968"
  "nominalEnd [Num 36028797018963968, Num 36028797018963976, Num 36028797018963984, Num 36028797018963992, Num 36028797018964000, Num 36028797018964008, Num 36028797018964016, Num 36028797018964024] (Num 16) (Num 11) 0 = Num 36028797018963984"
  "nominalStart [Num 36028797018963968, Num 36028797018963976, Num 36028797018963984, Num 36028797018963992, Num 36028797018964000, Num 36028797018964008, Num 36028797018964016, Num 36028797018964024] (Num 11) 1 = Num 36028797018963976"
  "nominalEnd [Num 36028797018963968, Num 36028797018963976, Num 36028797018963984, Num 36028797018963992, Num 36028797018964000, Num 36028797018964008, Num 36028797018964016, Num 36028797018964024] (Num 16) (Num 11) 1 = Num 36028797018963992"
  "nominalStart [Num 36028797018963968, Num 36028797018963976, Num 36028797018963984, Num 36028797018963992, Num 36028797018964000, Num 36028797018964008, Num 36028797018964016, Num 36028797018964024] (Num 11) 2 = Num 36028797018963992"
  "nominalEnd [Num 36028797018963968, Num 36028797018963976, Num 36028797018963984, Num 36028797018963992, Num 36028797018964000, Num 36028797018964008, Num 36028797018964016, Num 36028797018964024] (Num 16) (Num 11) 2 = Num 36028797018964008"
  "nominalStart [Num 36028797018963968, Num 36028797018963976, Num 36028797018963984, Num 36028797018963992, Num 36028797018964000, Num 36028797018964008, Num 36028797018964016, Num 36028797018964024] (Num 11) 3 = Num 36028797018964000"
  "nominalEnd [Num 36028797018963968, Num 36028797018963976, Num 36028797018963984, Num 36028797018963992, Num 36028797018964000, Num 36028797018964008, Num 36028797018964016, Num 36028797018964024] (Num 16) (Num 11) 3 = Num 36028797018964016"
  "nominalStart [Num 36028797018963968, Num 36028797018963976, Num 36028797018963984, Num 36028797018963992, Num 36028797018964000, Num 36028797018964008, Num 36028797018964016, Num 36028797018964024] (Num 11) 4 = Num 36028797018964016"
  "nominalEnd [Num 36028797018963968, Num 36028797018963976, Num 36028797018963984, Num 36028797018963992, Num 36028797018964000, Num 36028797018964008, Num 36028797018964016, Num 36028797018964024] (Num 16) (Num 11) 4 = Num 36028797018964032"
  "nominalStart [Num 36028797018963968, Num 36028797018963976, Num 36028797018963984, Num 36028797018963992, Num 36028797018964000, Num 36028797018964008, Num 36028797018964016, Num 36028797018964024] (Num 11) 5 = Num 36028797018964024"
  "nominalEnd [Num 36028797018963968, Num 36028797018963976, Num 36028797018963984, Num 36028797018963992, Num 36028797018964000, Num 36028797018964008, Num 36028797018964016, Num 36028797018964024] (Num 16) (Num 11) 5 = Num 36028797018964040"
  "nominalStart [Num 36028797018963968, Num 36028797018963976, Num 36028797018963984, Num 36028797018963992, Num 36028797018964000, Num 36028797018964008, Num 36028797018964016, Num 36028797018964024] (Num 11) 6 = Num 36028797018964032"
  "nominalEnd [Num 36028797018963968, Num 36028797018963976, Num 36028797018963984, Num 36028797018963992, Num 36028797018964000, Num 36028797018964008, Num 36028797018964016, Num 36028797018964024] (Num 16) (Num 11) 6 = Num 36028797018964048"
  by (simp_all add: nominalStart_def nominalEnd_def nthJ_def fl64_sixteenths fl64_near_2_55 fl64_eights)

lemma findIndex_near_2_55:
  "findIndex (\<lambda>t. jge t (Num 36028797018963968)) [Num 36028797018963968, Num 36028797018963976, Num 36028797018963984, Num 36028797018963992, Num 36028797018964000, Num 36028797018964008, Num 36028797018964016, Num 36028797018964024] = Some 0"
  "findIndex (\<lambda>t. jge t (Num 36028797018963976)) [Num 36028797018963968, Num 36028797018963976, Num 36028797018963984, Num 36028797018963992, Num 36028797018964000, Num 36028797018964008, Num 36028797018964016, Num 36028797018964024] = Some 1"
  "findIndex (\<lambda>t. jge t (Num 36028797018963992)) [Num 36028797018963968, Num 36028797018963976, Num 36028797018963984, Num 36028797018963992, Num 36028797018964000, Num 36028797018964008, Num 36028797018964016, Num 36028797018964024] = Some 3"
  "findIndex (\<lambda>t. jge t (Num 36028797018964000)) [Num 36028797018963968, Num 36028797018963976, Num 36028797018963984, Num 36028797018963992, Num 36028797018964000, Num 36028797018964008, Num 36028797018964016, Num 36028797018964024] = Some 4"
  "findIndex (\<lambda>t. jge t (Num 36028797018964016)) [Num 36028797018963968, Num 36028797018963976, Num 36028797018963984, Num 36028797018963992, Num 36028797018964000, Num 36028797018964008, Num 36028797018964016, Num 36028797018964024] = Some 6"
  "findIndex (\<lambda>t. jge t (Num 36028797018964024)) [Num 36028797018963968, Num 36028797018963976, Num 36028797018963984, Num 36028797018963992, Num 36028797018964000, Num 36028797018964008, Num 36028797018964016, Num 36028797018964024] = Some 7"
  "findIndex (\<lambda>t. jge t (Num 36028797018964032)) [Num 36028797018963968, Num 36028797018963976, Num 36028797018963984, Num 36028797018963992, Num 36028797018964000, Num 36028797018964008, Num 36028797018964016, Num 36028797018964024] = None"
  by simp_all

lemma scanEnd_near_2_55:
  "scanEnd (Num 36028797018963984) (drop 0 [Num 36028797018963968, Num 36028797018963976, Num 36028797018963984, Num 36028797018963992, Num 36028797018964000, Num 36028797018964008, Num 36028797018964016, Num 36028797018964024]) 0 0 = 2"
  "scanEnd (Num 36028797018963992) (drop 1 [Num 36028797018963968, Num 36028797018963976, Num 36028797018963984, Num 36028797018963992, Num 36028797018964000, Num 36028797018964008, Num 36028797018964016, Num 36028797018964024]) 1 1 = 3"
  "scanEnd (Num 36028797018964008) (drop 3 [Num 36028797018963968, Num 36028797018963976, Num 36028797018963984, Num 36028797018963992, Num 36028797018964000, Num 36028797018964008, Num 36028797018964016, Num 36028797018964024]) 3 3 = 5"
  "scanEnd (Num 36028797018964016) (drop 4 [Num 36028797018963968, Num 36028797018963976, Num 36028797018963984, Num 36028797018963992, Num 36028797018964000, Num 36028797018964008, Num 36028797018964016, Num 36028797018964024]) 4 4 = 6"
  "scanEnd (Num 36028797018964032) (drop 6 [Num 36028797018963968, Num 36028797018963976, Num 36028797018963984, Num 36028797018963992, Num 36028797018964000, Num 36028797018964008, Num 36028797018964016, Num 36028797018964024]) 6 6 = 7"
  "scanEnd (Num 36028797018964040) (drop 7 [Num 36028797018963968, Num 36028797018963976, Num 36028797018963984, Num 36028797018963992, Num 36028797018964000, Num 36028797018964008, Num 36028797018964016, Num 36028797018964024]) 7 7 = 7"
  "scanEnd (Num 36028797018964048) (drop 0 [Num 36028797018963968, Num 36028797018963976, Num 36028797018963984, Num 36028797018963992, Num 36028797018964000, Num 36028797018964008, Num 36028797018964016, Num 36028797018964024]) 0 0 = 7"
  by simp_all

lemma rowBounds_near_2_55:
  "rowBounds (resolveRow [Num 36028797018963968, Num 36028797018963976, Num 36028797018963984, Num 36028797018963992, Num 36028797018964000, Num 36028797018964008, Num 36028797018964016, Num 36028797018964024] (Num 16) (Num 11)
      \<lparr>cap_window_index = 0, cap_label = l\<rparr>) = (0, Num 36028797018963968, Num 36028797018963984)"
  "rowBounds (resolveRow [Num 36028797018963968, Num 36028797018963976, Num 36028797018963984, Num 36028797018963992, Num 36028797018964000, Num 36028797018964008, Num 36028797018964016, Num 36028797018964024] (Num 16) (Num 11)
      \<lparr>cap_window_index = 1, cap_label = l\<rparr>) = (1, Num 36028797018963976, Num 36028797018963992)"
  "rowBounds (resolveRow [Num 36028797018963968, Num 36028797018963976, Num 36028797018963984, Num 36028797018963992, Num 36028797018964000, Num 36028797018964008, Num 36028797018964016, Num 36028797018964024] (Num 16) (Num 11)
      \<lparr>cap_window_index = 2, cap_label = l\<rparr>) = (2, Num 36028797018963992, Num 36028797018964008)"
  "rowBounds (resolveRow [Num 36028797018963968, Num 36028797018963976, Num 36028797018963984, Num 36028797018963992, Num 36028797018964000, Num 36028797018964008, Num 36028797018964016, Num 36028797018964024] (Num 16) (Num 11)
      \<lparr>cap_window_index = 3, cap_label = l\<rparr>) = (3, Num 36028797018964000, Num 36028797018964016)"
  "rowBounds (resolveRow [Num 36028797018963968, Num 36028797018963976, Num 36028797018963984, Num 36028797018963992, Num 36028797018964000, Num 36028797018964008, Num 36028797018964016, Num 36028797018964024] (Num 16) (Num 11)
      \<lparr>cap_window_index = 4, cap_label = l\<rparr>) = (4, Num 36028797018964016, Num 36028797018964024)"
  "rowBounds (resolveRow [Num 36028797018963968, Num 36028797018963976, Num 36028797018963984, Num 36028797018963992, Num 36028797018964000, Num 36028797018964008, Num 36028797018964016, Num 36028797018964024] (Num 16) (Num 11)
      \<lparr>cap_window_index = 5, cap_label = l\<rparr>) = (5, Num 36028797018964024, Num 36028797018964024)"
  "rowBounds (resolveRow [Num 36028797018963968, Num 36028797018963976, Num 36028797018963984, Num 36028797018963992, Num 36028797018964000, Num 36028797018964008, Num 36028797018964016, Num 36028797018964024] (Num 16) (Num 11)
      \<lparr>cap_window_index = 6, cap_label = l\<rparr>) = (6, Num 36028797018963968, Num 36028797018964024)"
  unfolding rowBounds_def resolveRow_def Let_def caption.simps nominal_near_2_55
    findIndex_near_2_55 option.case scanEnd_near_2_55
  by (simp_all add: nthJ_def)

lemma makeRows_near_2_55:
  "map_option (map rowBounds)
     (makeRows (\<lambda>t. slidingWindowCaptions (Some t)) [Num 36028797018963968, Num 36028797018963976, Num 36028797018963984, Num 36028797018963992, Num 36028797018964000, Num 36028797018964008, Num 36028797018964016, Num 36028797018964024] (Num 16) (Num 11) y)
   = Some [(0, Num 36028797018963968, Num 36028797018963984),
             (1, Num 36028797018963976, Num 36028797018963992),
             (2, Num 36028797018963992, Num 36028797018964008),
             (3, Num 36028797018964000, Num 36028797018964016),
             (4, Num 36028797018964016, Num 36028797018964024),
             (5, Num 36028797018964024, Num 36028797018964024),
             (6, Num 36028797018963968, Num 36028797018964024)]"
proof (cases "slidingWindowCaptions (Some [Num 36028797018963968, Num 36028797018963976, Num 36028797018963984, Num 36028797018963992, Num 36028797018964000, Num 36028797018964008, Num 36028797018964016, Num 36028797018964024]) y (Num 16) (Num 11)")
  case None
  then show ?thesis
    using captions_near_2_55 [of y] by simp
next
  case (Some caps)
  with captions_near_2_55 [of y] have idx: "map cap_window_index caps = [0, 1, 2, 3, 4, 5, 6]"
    by simp
  have "map rowBounds (map (resolveRow [Num 36028797018963968, Num 36028797018963976, Num 36028797018963984, Num 36028797018963992, Num 36028797018964000, Num 36028797018964008, Num 36028797018964016, Num 36028797018964024] (Num 16) (Num 11)) caps)
      = [(0, Num 36028797018963968, Num 36028797018963984),
             (1, Num 36028797018963976, Num 36028797018963992),
             (2, Num 36028797018963992, Num 36028797018964008),
             (3, Num 36028797018964000, Num 36028797018964016),
             (4, Num 36028797018964016, Num 36028797018964024),
             (5, Num 36028797018964024, Num 36028797018964024),
             (6, Num 36028797018963968, Num 36028797018964024)]"
    unfolding rowBounds_map_resolveRow idx by (simp add: rowBounds_near_2_55 del: One_nat_def)
  then show ?thesis
    by (simp add: makeRows_def Some)
qed

text \<open>
  A file of eight rows with these time stamps passes the cleaning of \<^verbatim>\<open>parseAll\<close>
  unchanged: the time stamps are finite and strictly increasing.
\<close>

lemma parseFile_near_2_55:
  "parseFile needed
     (map (\<lambda>t. \<lparr>r_time_s = Num t, r_tag1_residual_rad = Num 0, r_tag2_residual_rad = Num 0,
               r_tag1_detrend_rad = Num 0, r_tag2_detrend_rad = Num 0\<rparr>)
        [36028797018963968, 36028797018963976, 36028797018963984, 36028797018963992, 36028797018964000, 36028797018964008, 36028797018964016, 36028797018964024])
   = Inr \<lparr>c_time = [Num 36028797018963968, Num 36028797018963976, Num 36028797018963984, Num 36028797018963992, Num 36028797018964000, Num 36028797018964008, Num 36028797018964016, Num 36028797018964024],
          c_series = \<lparr>tag1_residual_rad = replicate 8 (Num 0),
                       tag2_residual_rad = replicate 8 (Num 0),
                       tag1_detrend_rad = replicate 8 (Num 0),
                       tag2_detrend_rad = replicate 8 (Num 0)\<rparr>\<rparr>"
proof -
  have cols: "collectRows
      (map (\<lambda>t. \<lparr>r_time_s = Num t, r_tag1_residual_rad = Num 0, r_tag2_residual_rad = Num 0,
               r_tag1_detrend_rad = Num 0, r_tag2_detrend_rad = Num 0\<rparr>)
        [36028797018963968, 36028797018963976, 36028797018963984, 36028797018963992, 36028797018964000, 36028797018964008, 36028797018964016, 36028797018964024])
    = \<lparr>c_time = [Num 36028797018963968, Num 36028797018963976, Num 36028797018963984, Num 36028797018963992, Num 36028797018964000, Num 36028797018964008, Num 36028797018964016, Num 36028797018964024],
       c_series = \<lparr>tag1_residual_rad = replicate 8 (Num 0),
                    tag2_residual_rad = replicate 8 (Num 0),
                    tag1_detrend_rad = replicate 8 (Num 0),
                    tag2_detrend_rad = replicate 8 (Num 0)\<rparr>\<rparr>"
    unfolding collectRows_def foldl_pushRow
    by (simp add: emptyColumns_def rowFinite_def isFiniteNum_def NumberIsFinite_def
        NumberIsNaN_def numeral_eq_Suc)
  have inc: "enforceIncreasing [Num 36028797018963968, Num 36028797018963976, Num 36028797018963984, Num 36028797018963992, Num 36028797018964000, Num 36028797018964008, Num 36028797018964016, Num 36028797018964024] = [Num 36028797018963968, Num 36028797018963976, Num 36028797018963984, Num 36028797018963992, Num 36028797018964000, Num 36028797018964008, Num 36028797018964016, Num 36028797018964024]"
    by (simp add: enforceIncreasing_def enforceStep_def nthJ_def upt_rec)
  have miss: "filter (\<lambda>c. c \<notin> set needed) needed = []"
    by simp
  show ?thesis
    unfolding parseFile_def miss cols by (simp add: inc)
qed

text \<open>
  C3 (as stated it fails): a file of eight rows with the time stamps \<open>2 ^ 55\<close>,
  \<open>2 ^ 55 + 8\<close>, ..., \<open>2 ^ 55 + 56\<close> is cleaned to a time column of these eight samples.
  With the window 16 and the hop 11, slidingWindowCaptions emits the captions of the
  windows 0 to 6 for it. The nominal start of window 6
  is \<open>T0 + 6 * 11\<close>, which rounds to \<open>2 ^ 55 + 64\<close>, after the last time stamp. No
  sample is at or after it (\<^verbatim>\<open>findIndex\<close> gives \<open>-1\<close>), and the row gets the
  start_time \<open>2 ^ 55\<close>, the first time stamp of the series, not the nominal bound.
\<close>

theorem C3_start_fallback_counterexample:
  "parseFile needed
     (map (\<lambda>t. \<lparr>r_time_s = Num t, r_tag1_residual_rad = Num 0, r_tag2_residual_rad = Num 0,
               r_tag1_detrend_rad = Num 0, r_tag2_detrend_rad = Num 0\<rparr>)
        [36028797018963968, 36028797018963976, 36028797018963984, 36028797018963992, 36028797018964000, 36028797018964008, 36028797018964016, 36028797018964024])
   = Inr \<lparr>c_time = [Num 36028797018963968, Num 36028797018963976, Num 36028797018963984, Num 36028797018963992, Num 36028797018964000, Num 36028797018964008, Num 36028797018964016, Num 36028797018964024],
          c_series = \<lparr>tag1_residual_rad = replicate 8 (Num 0),
                       tag2_residual_rad = replicate 8 (Num 0),
                       tag1_detrend_rad = replicate 8 (Num 0),
                       tag2_detrend_rad = replicate 8 (Num 0)\<rparr>\<rparr>
   \<and> map_option (map cap_window_index)
     (slidingWindowCaptions (Some [Num 36028797018963968, Num 36028797018963976, Num 36028797018963984, Num 36028797018963992, Num 36028797018964000, Num 36028797018964008, Num 36028797018964016, Num 36028797018964024])
        (replicate 8 (Num 0)) (Num 16) (Num 11)) = Some [0, 1, 2, 3, 4, 5, 6]
   \<and> nominalStart [Num 36028797018963968, Num 36028797018963976, Num 36028797018963984, Num 36028797018963992, Num 36028797018964000, Num 36028797018964008, Num 36028797018964016, Num 36028797018964024] (Num 11) 6 = Num 36028797018964032
   \<and> findIndex (\<lambda>t. jge t (Num 36028797018964032)) [Num 36028797018963968, Num 36028797018963976, Num 36028797018963984, Num 36028797018963992, Num 36028797018964000, Num 36028797018964008, Num 36028797018964016, Num 36028797018964024] = None
   \<and> map_option (map rowBounds)
        (makeRows (\<lambda>t. slidingWindowCaptions (Some t)) [Num 36028797018963968, Num 36028797018963976, Num 36028797018963984, Num 36028797018963992, Num 36028797018964000, Num 36028797018964008, Num 36028797018964016, Num 36028797018964024]
           (Num 16) (Num 11) (replicate 8 (Num 0)))
       = Some [(0, Num 36028797018963968, Num 36028797018963984),
             (1, Num 36028797018963976, Num 36028797018963992),
             (2, Num 36028797018963992, Num 36028797018964008),
             (3, Num 36028797018964000, Num 36028797018964016),
             (4, Num 36028797018964016, Num 36028797018964024),
             (5, Num 36028797018964024, Num 36028797018964024),
             (6, Num 36028797018963968, Num 36028797018964024)]"
  unfolding parseFile_near_2_55
  by (simp add: captions_near_2_55 nominal_near_2_55 makeRows_near_2_55)

text \<open>
  C3 (amended): for a non-empty series with time stamps in increasing order, and a
  caption whose nominal bounds (the rounded \<open>T0 + k * HOP\<close> and the rounded sum of that
  and \<open>WIN\<close>) are finite, the row gets as start_time the time stamp of the first sample
  at or after the nominal window start, or the first time stamp of the series when no
  sample is at or after it; and as end_time the time stamp of the last sample at or
  before the nominal window end, or the start_time itself when that already lies after
  the nominal end. No nominal bound is used as a value.
\<close>

theorem C3_resolved_bounds:
  assumes "time = map Num ts" and "ts \<noteq> []" and "sorted ts"
    and "nominalStart time HOP (cap_window_index c) = Num ns"
    and "nominalEnd time WIN HOP (cap_window_index c) = Num ne"
  shows "(let s = (case find (\<lambda>t. ns \<le> t) ts of Some t \<Rightarrow> t | None \<Rightarrow> hd ts);
              r = resolveRow time WIN HOP c
          in Num ns = jadd (Num (hd ts)) (jmul (Num (real (cap_window_index c))) HOP)
             \<and> Num ne = jadd (Num ns) WIN
             \<and> cr_start_time r = Num s
             \<and> cr_end_time r = Num (if s \<le> ne then last (filter (\<lambda>t. t \<le> ne) ts) else s))"
proof -
  define si where "si = (case findIndex (\<lambda>t. ns \<le> t) ts of None \<Rightarrow> 0 | Some i \<Rightarrow> i)"
  define s where "s = (case find (\<lambda>t. ns \<le> t) ts of Some t \<Rightarrow> t | None \<Rightarrow> hd ts)"
  note nS = assms(4) and nE = assms(5)
  have T0: "nthJ time 0 = Num (hd ts)"
    using assms(1,2) by (simp add: nthJ_def hd_conv_nth)
  have b1: "Num ns = jadd (Num (hd ts)) (jmul (Num (real (cap_window_index c))) HOP)"
    using nS unfolding nominalStart_def T0 by simp
  have b2: "Num ne = jadd (Num ns) WIN"
    using nE unfolding nominalEnd_def nS by simp
  have fi: "findIndex (\<lambda>t. jge t (Num ns)) time = findIndex (\<lambda>t. ns \<le> t) ts"
    by (simp add: assms(1) findIndex_map)
  have si: "si < length ts \<and> ts ! si = s"
  proof (cases "findIndex (\<lambda>t. ns \<le> t) ts")
    case None
    then show ?thesis
      using assms(2) findIndex_None [OF None] by (simp add: si_def s_def hd_conv_nth)
  next
    case (Some i)
    then show ?thesis
      using findIndex_Some [OF Some] by (simp add: si_def s_def)
  qed
  have en: "scanEnd (Num ne) (drop si time) si si < length ts
      \<and> ts ! (scanEnd (Num ne) (drop si time) si si)
          = (if s \<le> ne then last (filter (\<lambda>t. t \<le> ne) ts) else s)"
    using scanEnd_sorted [OF assms(3), of si ne] si by (simp add: assms(1))
  have rr: "resolveRow time WIN HOP c =
      \<lparr>cr_window_index = cap_window_index c,
       cr_start_time = nthJ time si,
       cr_end_time = (if scanEnd (Num ne) (drop si time) si si < length time
                      then time ! scanEnd (Num ne) (drop si time) si si else Num ne),
       cr_label = cap_label c\<rparr>"
    unfolding resolveRow_def Let_def nS nE fi si_def [symmetric] by (rule refl)
  have st: "cr_start_time (resolveRow time WIN HOP c) = Num s"
    unfolding rr using si by (simp add: assms(1) nthJ_def)
  have et: "cr_end_time (resolveRow time WIN HOP c)
      = Num (if s \<le> ne then last (filter (\<lambda>t. t \<le> ne) ts) else s)"
    unfolding rr using en by (simp add: assms(1))
  show ?thesis
    unfolding Let_def s_def [symmetric]
    using b1 b2 st et by simp
qed

theorem C3_resolved_bounds_witness:
  "nominalStart [Num 0, Num (1 / 2), Num 1, Num (3 / 2), Num 2] (Num (1 / 2)) 1 = Num (1 / 2)
   \<and> nominalEnd [Num 0, Num (1 / 2), Num 1, Num (3 / 2), Num 2] (Num 1) (Num (1 / 2)) 1 = Num (3 / 2)
   \<and> cr_start_time (resolveRow [Num 0, Num (1 / 2), Num 1, Num (3 / 2), Num 2] (Num 1) (Num (1 / 2))
       \<lparr>cap_window_index = 1, cap_label = Increasing\<rparr>) = Num (1 / 2)
   \<and> cr_end_time (resolveRow [Num 0, Num (1 / 2), Num 1, Num (3 / 2), Num 2] (Num 1) (Num (1 / 2))
       \<lparr>cap_window_index = 1, cap_label = Increasing\<rparr>) = Num (3 / 2)
   \<and> nominalStart [Num 36028797018963968, Num 36028797018963976, Num 36028797018963984, Num 36028797018963992, Num 36028797018964000, Num 36028797018964008, Num 36028797018964016, Num 36028797018964024] (Num 11) 6 = Num 36028797018964032
   \<and> nominalEnd [Num 36028797018963968, Num 36028797018963976, Num 36028797018963984, Num 36028797018963992, Num 36028797018964000, Num 36028797018964008, Num 36028797018964016, Num 36028797018964024] (Num 16) (Num 11) 6 = Num 36028797018964048
   \<and> cr_start_time (resolveRow [Num 36028797018963968, Num 36028797018963976, Num 36028797018963984, Num 36028797018963992, Num 36028797018964000, Num 36028797018964008, Num 36028797018964016, Num 36028797018964024] (Num 16) (Num 11)
       \<lparr>cap_window_index = 6, cap_label = Constant\<rparr>) = Num 36028797018963968
   \<and> cr_end_time (resolveRow [Num 36028797018963968, Num 36028797018963976, Num 36028797018963984, Num 36028797018963992, Num 36028797018964000, Num 36028797018964008, Num 36028797018964016, Num 36028797018964024] (Num 16) (Num 11)
       \<lparr>cap_window_index = 6, cap_label = Constant\<rparr>) = Num 36028797018964024"
proof -
  have a: "[Num 0, Num (1 / 2), Num 1, Num (3 / 2), Num 2] = map Num [0, 1 / 2, 1, 3 / 2, 2]"
    and b: "[Num 36028797018963968, Num 36028797018963976, Num 36028797018963984, Num 36028797018963992, Num 36028797018964000, Num 36028797018964008, Num 36028797018964016, Num 36028797018964024] = map Num [36028797018963968, 36028797018963976, 36028797018963984, 36028797018963992, 36028797018964000, 36028797018964008, 36028797018964016, 36028797018964024 :: real]"
    by simp_all
  have na: "[0, 1 / 2, 1, 3 / 2, 2 :: real] \<noteq> []" and nb: "[36028797018963968, 36028797018963976, 36028797018963984, 36028797018963992, 36028797018964000, 36028797018964008, 36028797018964016, 36028797018964024 :: real] \<noteq> []"
    by simp_all
  have sa: "sorted [0, 1 / 2, 1, 3 / 2, 2 :: real]" and sb: "sorted [36028797018963968, 36028797018963976, 36028797018963984, 36028797018963992, 36028797018964000, 36028797018964008, 36028797018964016, 36028797018964024 :: real]"
    by simp_all
  have ns1: "nominalStart [Num 0, Num (1 / 2), Num 1, Num (3 / 2), Num 2] (Num (1 / 2))
      (cap_window_index \<lparr>cap_window_index = 1, cap_label = Increasing\<rparr>) = Num (1 / 2)"
    and ne1: "nominalEnd [Num 0, Num (1 / 2), Num 1, Num (3 / 2), Num 2] (Num 1) (Num (1 / 2))
      (cap_window_index \<lparr>cap_window_index = 1, cap_label = Increasing\<rparr>) = Num (3 / 2)"
    by (simp_all add: nominalStart_def nominalEnd_def nthJ_def fl64_sixteenths)
  have ns6: "nominalStart [Num 36028797018963968, Num 36028797018963976, Num 36028797018963984, Num 36028797018963992, Num 36028797018964000, Num 36028797018964008, Num 36028797018964016, Num 36028797018964024] (Num 11)
      (cap_window_index \<lparr>cap_window_index = 6, cap_label = Constant\<rparr>) = Num 36028797018964032"
    and ne6: "nominalEnd [Num 36028797018963968, Num 36028797018963976, Num 36028797018963984, Num 36028797018963992, Num 36028797018964000, Num 36028797018964008, Num 36028797018964016, Num 36028797018964024] (Num 16) (Num 11)
      (cap_window_index \<lparr>cap_window_index = 6, cap_label = Constant\<rparr>) = Num 36028797018964048"
    by (simp_all add: nominal_near_2_55)
  note r1 = C3_resolved_bounds [OF a na sa ns1 ne1, unfolded Let_def]
  note r6 = C3_resolved_bounds [OF b nb sb ns6 ne6, unfolded Let_def]
  have s1: "cr_start_time (resolveRow [Num 0, Num (1 / 2), Num 1, Num (3 / 2), Num 2] (Num 1) (Num (1 / 2))
       \<lparr>cap_window_index = 1, cap_label = Increasing\<rparr>) = Num (1 / 2)"
    using r1 [THEN conjunct2, THEN conjunct2, THEN conjunct1] by simp
  have e1: "cr_end_time (resolveRow [Num 0, Num (1 / 2), Num 1, Num (3 / 2), Num 2] (Num 1) (Num (1 / 2))
       \<lparr>cap_window_index = 1, cap_label = Increasing\<rparr>) = Num (3 / 2)"
    using r1 [THEN conjunct2, THEN conjunct2, THEN conjunct2] by simp
  have s6: "cr_start_time (resolveRow [Num 36028797018963968, Num 36028797018963976, Num 36028797018963984, Num 36028797018963992, Num 36028797018964000, Num 36028797018964008, Num 36028797018964016, Num 36028797018964024] (Num 16) (Num 11)
       \<lparr>cap_window_index = 6, cap_label = Constant\<rparr>) = Num 36028797018963968"
    using r6 [THEN conjunct2, THEN conjunct2, THEN conjunct1] by simp
  have e6: "cr_end_time (resolveRow [Num 36028797018963968, Num 36028797018963976, Num 36028797018963984, Num 36028797018963992, Num 36028797018964000, Num 36028797018964008, Num 36028797018964016, Num 36028797018964024] (Num 16) (Num 11)
       \<lparr>cap_window_index = 6, cap_label = Constant\<rparr>) = Num 36028797018964024"
    using r6 [THEN conjunct2, THEN conjunct2, THEN conjunct2] by simp
  show ?thesis
    using s1 e1 s6 e6 ns1 ne1 ns6 ne6 by simp
qed
section \<open>Properties of the merge\<close>

lemma widen_fields [simp]:
  "window_index (widen key r row) = window_index row"
  "start_time (widen key r row) = jmin (start_time row) (cr_start_time r)"
  "end_time (widen key r row) = jmax (end_time row) (cr_end_time r)"
  by (cases key; simp add: widen_def)+

lemma seedRow_fields [simp]:
  "window_index (seedRow r) = cr_window_index r"
  "start_time (seedRow r) = cr_start_time r"
  "end_time (seedRow r) = cr_end_time r"
  by (simp_all add: seedRow_def)

lemma mergeRow_map_of:
  "map_of (mergeRow key b r) =
     (map_of b)(cr_window_index r \<mapsto>
        widen key r (case map_of b (cr_window_index r) of None \<Rightarrow> seedRow r | Some row \<Rightarrow> row))"
  by (cases "map_of b (cr_window_index r)")
    (auto simp: mergeRow_def Let_def update_conv' widen_def seedRow_def fun_eq_iff map_add_def
      split: option.splits)

lemma mergeRow_distinct:
  "distinct (map fst b) \<Longrightarrow> distinct (map fst (mergeRow key b r))"
  by (cases "map_of b (cr_window_index r)")
    (auto simp: mergeRow_def Let_def distinct_update map_of_eq_None_iff split: option.splits)

lemma isMinStart_other:
  assumes "isMinStart rs row" "cr_window_index r \<noteq> window_index row"
  shows "isMinStart (rs @ [r]) row"
  using assms by (auto simp: isMinStart_def)

lemma isMaxEnd_other:
  assumes "isMaxEnd rs row" "cr_window_index r \<noteq> window_index row"
  shows "isMaxEnd (rs @ [r]) row"
  using assms by (auto simp: isMaxEnd_def)

lemma notin_image_set: "x \<notin> f ` set xs \<Longrightarrow> \<forall>y\<in>set xs. f y \<noteq> x"
  by auto

lemma isMinStart_seed:
  assumes "okRow r" "cr_window_index r \<notin> cr_window_index ` set rs"
  shows "isMinStart (rs @ [r]) (widen key r (seedRow r))"
proof -
  from assms(2) have "\<forall>r'\<in>set rs. cr_window_index r' \<noteq> cr_window_index r"
    by (rule notin_image_set)
  then show ?thesis
    using assms(1) by (auto simp: isMinStart_def okRow_def)
qed

lemma isMaxEnd_seed:
  assumes "okRow r" "cr_window_index r \<notin> cr_window_index ` set rs"
  shows "isMaxEnd (rs @ [r]) (widen key r (seedRow r))"
proof -
  from assms(2) have "\<forall>r'\<in>set rs. cr_window_index r' \<noteq> cr_window_index r"
    by (rule notin_image_set)
  then show ?thesis
    using assms(1) by (auto simp: isMaxEnd_def okRow_def)
qed

lemma isMinStart_widen:
  assumes "isMinStart rs row" "okRow r" "\<forall>r'\<in>set rs. okRow r'"
    "cr_window_index r = window_index row"
  shows "isMinStart (rs @ [r]) (widen key r row)"
proof -
  from assms(1) obtain r0 where r0: "r0 \<in> set rs" "cr_window_index r0 = window_index row"
      "cr_start_time r0 = start_time row"
    and le: "\<forall>r'\<in>set rs. cr_window_index r' = window_index row
          \<longrightarrow> jle (start_time row) (cr_start_time r')"
    by (auto simp: isMinStart_def)
  from assms(3) r0(1) have "okRow r0" by blast
  then obtain a where a: "start_time row = Num a"
    unfolding okRow_def r0(3) by blast
  from assms(2) obtain c where c: "cr_start_time r = Num c"
    by (auto simp: okRow_def)
  have ex: "\<exists>r'\<in>set (rs @ [r]). cr_window_index r' = window_index (widen key r row)
      \<and> cr_start_time r' = start_time (widen key r row)"
  proof (cases "a \<le> c")
    case True
    then show ?thesis using r0 a c by (auto simp: min_def)
  next
    case False
    then show ?thesis using assms(4) a c by (auto simp: min_def)
  qed
  have all: "jle (start_time (widen key r row)) (cr_start_time r')"
    if "r' \<in> set (rs @ [r])" "cr_window_index r' = window_index (widen key r row)" for r'
  proof (cases "r' = r")
    case True
    then show ?thesis using a c by simp
  next
    case False
    with that have in_rs: "r' \<in> set rs" and k: "cr_window_index r' = window_index row"
      by auto
    from assms(3) in_rs have "okRow r'" by blast
    then obtain d where d: "cr_start_time r' = Num d"
      unfolding okRow_def by blast
    from le in_rs k have "jle (start_time row) (cr_start_time r')" by blast
    then show ?thesis using a c d by simp
  qed
  show ?thesis
    unfolding isMinStart_def using ex all by blast
qed

lemma isMaxEnd_widen:
  assumes "isMaxEnd rs row" "okRow r" "\<forall>r'\<in>set rs. okRow r'"
    "cr_window_index r = window_index row"
  shows "isMaxEnd (rs @ [r]) (widen key r row)"
proof -
  from assms(1) obtain r0 where r0: "r0 \<in> set rs" "cr_window_index r0 = window_index row"
      "cr_end_time r0 = end_time row"
    and le: "\<forall>r'\<in>set rs. cr_window_index r' = window_index row
          \<longrightarrow> jle (cr_end_time r') (end_time row)"
    by (auto simp: isMaxEnd_def)
  from assms(3) r0(1) have "okRow r0" by blast
  then obtain a where a: "end_time row = Num a"
    unfolding okRow_def r0(3) by blast
  from assms(2) obtain c where c: "cr_end_time r = Num c"
    by (auto simp: okRow_def)
  have ex: "\<exists>r'\<in>set (rs @ [r]). cr_window_index r' = window_index (widen key r row)
      \<and> cr_end_time r' = end_time (widen key r row)"
  proof (cases "c \<le> a")
    case True
    then show ?thesis using r0 a c by (auto simp: max_def)
  next
    case False
    then show ?thesis using assms(4) a c by (auto simp: max_def)
  qed
  have all: "jle (cr_end_time r') (end_time (widen key r row))"
    if "r' \<in> set (rs @ [r])" "cr_window_index r' = window_index (widen key r row)" for r'
  proof (cases "r' = r")
    case True
    then show ?thesis using a c by simp
  next
    case False
    with that have in_rs: "r' \<in> set rs" and k: "cr_window_index r' = window_index row"
      by auto
    from assms(3) in_rs have "okRow r'" by blast
    then obtain d where d: "cr_end_time r' = Num d"
      unfolding okRow_def by blast
    from le in_rs k have "jle (cr_end_time r') (end_time row)" by blast
    then show ?thesis using a c d by simp
  qed
  show ?thesis
    unfolding isMaxEnd_def using ex all by blast
qed

lemma mergeRow_inv:
  assumes inv: "mergeInv b rs" and ok: "okRow r" and oks: "\<forall>r'\<in>set rs. okRow r'"
  shows "mergeInv (mergeRow key b r) (rs @ [r])"
proof -
  let ?k = "cr_window_index r"
  let ?base = "case map_of b ?k of None \<Rightarrow> seedRow r | Some row \<Rightarrow> row"
  have d: "distinct (map fst (mergeRow key b r))"
    using inv by (simp add: mergeInv_def mergeRow_distinct)
  have none: "map_of (mergeRow key b r) k = None \<longleftrightarrow> k \<notin> cr_window_index ` set (rs @ [r])" for k
    using inv by (auto simp: mergeInv_def mergeRow_map_of)
  have some: "window_index row = k \<and> isMinStart (rs @ [r]) row \<and> isMaxEnd (rs @ [r]) row"
    if m: "map_of (mergeRow key b r) k = Some row" for k row
  proof (cases "k = ?k")
    case False
    with m have "map_of b k = Some row" by (simp add: mergeRow_map_of)
    with inv have "window_index row = k" "isMinStart rs row" "isMaxEnd rs row"
      by (auto simp: mergeInv_def)
    with False show ?thesis
      by (auto intro: isMinStart_other isMaxEnd_other)
  next
    case True
    with m have row: "row = widen key r ?base" by (simp add: mergeRow_map_of)
    show ?thesis
    proof (cases "map_of b ?k")
      case None
      with inv have "?k \<notin> cr_window_index ` set rs" by (auto simp: mergeInv_def)
      then show ?thesis
        using None True row ok by (simp add: isMinStart_seed isMaxEnd_seed)
    next
      case (Some base)
      with inv have "window_index base = ?k" "isMinStart rs base" "isMaxEnd rs base"
        by (auto simp: mergeInv_def)
      then show ?thesis
        using Some True row ok oks by (simp add: isMinStart_widen isMaxEnd_widen)
    qed
  qed
  show ?thesis
    unfolding mergeInv_def using d none some by blast
qed

lemma merge_inv:
  assumes "mergeInv b rs" "\<forall>r\<in>set rs. okRow r" "\<forall>r\<in>set rows. okRow r"
  shows "mergeInv (merge b rows key) (rs @ rows)"
  using assms
proof (induction rows arbitrary: b rs)
  case Nil
  then show ?case by (simp add: merge_def)
next
  case (Cons r rows)
  have "mergeInv (mergeRow key b r) (rs @ [r])"
    using Cons.prems by (intro mergeRow_inv) auto
  then have "mergeInv (merge (mergeRow key b r) rows key) ((rs @ [r]) @ rows)"
    using Cons.prems by (intro Cons.IH) auto
  then show ?case by (simp add: merge_def)
qed

lemma mergeInv_empty: "mergeInv [] []"
  by (simp add: mergeInv_def)

lemma mergeChannels_inv:
  assumes "\<forall>r\<in>set (t1r @ t2r @ t1d @ t2d). okRow r"
  shows "\<exists>b. mergeChannels t1r t2r t1d t2d = sort_key window_index (map snd b)
           \<and> mergeInv b (t1r @ t2r @ t1d @ t2d)"
proof -
  let ?b1 = "merge [] t1r Tag1_residual_label"
  let ?b2 = "merge ?b1 t2r Tag2_residual_label"
  let ?b3 = "merge ?b2 t1d Tag1_detrend_label"
  let ?b4 = "merge ?b3 t2d Tag2_detrend_label"
  have 1: "mergeInv ?b1 ([] @ t1r)"
    using assms by (intro merge_inv mergeInv_empty) auto
  have 2: "mergeInv ?b2 (([] @ t1r) @ t2r)"
    using assms by (intro merge_inv 1) auto
  have 3: "mergeInv ?b3 ((([] @ t1r) @ t2r) @ t1d)"
    using assms by (intro merge_inv 2) auto
  have 4: "mergeInv ?b4 (((([] @ t1r) @ t2r) @ t1d) @ t2d)"
    using assms by (intro merge_inv 3) auto
  then have "mergeInv ?b4 (t1r @ t2r @ t1d @ t2d)" by simp
  moreover have "mergeChannels t1r t2r t1d t2d = sort_key window_index (map snd ?b4)"
    by (simp add: mergeChannels_def)
  ultimately show ?thesis by blast
qed

lemma distinct_map_sort_key: "distinct (map f (sort_key f xs)) = distinct (map f xs)"
  by (induction xs) (simp_all add: distinct_insort_key)

lemma mergeInv_rows:
  assumes inv: "mergeInv b chan" and oks: "\<forall>r\<in>set chan. okRow r"
    and rows: "rows = sort_key window_index (map snd b)"
  shows "sorted (map window_index rows) \<and> distinct (map window_index rows)
      \<and> window_index ` set rows = cr_window_index ` set chan
      \<and> (\<forall>row\<in>set rows. isMinStart chan row \<and> isMaxEnd chan row)"
proof -
  have d: "distinct (map fst b)" using inv by (simp add: mergeInv_def)
  have pair: "window_index row = k \<and> isMinStart chan row \<and> isMaxEnd chan row"
    if "(k, row) \<in> set b" for k row
  proof -
    from that d have "map_of b k = Some row" by simp
    with inv show ?thesis unfolding mergeInv_def by blast
  qed
  then have keys: "map window_index (map snd b) = map fst b"
    by auto
  have s: "sorted (map window_index rows)"
    unfolding rows by (rule sorted_sort_key)
  have dd: "distinct (map window_index rows)"
    unfolding rows distinct_map_sort_key keys by (rule d)
  have "fst ` set b = cr_window_index ` set chan"
  proof -
    have "k \<in> fst ` set b \<longleftrightarrow> k \<in> cr_window_index ` set chan" for k
      using inv unfolding mergeInv_def by (metis map_of_eq_None_iff)
    then show ?thesis by blast
  qed
  moreover have "window_index ` set rows = fst ` set b"
  proof -
    have "window_index ` set rows = set (map window_index (map snd b))"
      unfolding rows by (simp add: image_image)
    then show ?thesis unfolding keys by simp
  qed
  ultimately have dom: "window_index ` set rows = cr_window_index ` set chan"
    by simp
  have "isMinStart chan row \<and> isMaxEnd chan row" if "row \<in> set rows" for row
  proof -
    from that obtain k where "(k, row) \<in> set b"
      unfolding rows by auto
    then show ?thesis using pair by blast
  qed
  with s dd dom show ?thesis by blast
qed

lemma isMinStart_Min:
  assumes "isMinStart chan row" and "\<forall>r\<in>set chan. okRow r"
  shows "start_time row = Num (Min {s. \<exists>r\<in>set chan. cr_window_index r = window_index row
            \<and> cr_start_time r = Num s})"
proof -
  let ?A = "{s. \<exists>r\<in>set chan. cr_window_index r = window_index row \<and> cr_start_time r = Num s}"
  from assms(1) obtain r0 where r0: "r0 \<in> set chan" "cr_window_index r0 = window_index row"
      "cr_start_time r0 = start_time row"
    and le: "\<forall>r\<in>set chan. cr_window_index r = window_index row
          \<longrightarrow> jle (start_time row) (cr_start_time r)"
    by (auto simp: isMinStart_def)
  from assms(2) r0(1) have "okRow r0" by blast
  then obtain m where m: "start_time row = Num m"
    unfolding okRow_def r0(3) by blast
  have "?A \<subseteq> (\<lambda>r. numVal (cr_start_time r)) ` set chan"
    by force
  then have fin: "finite ?A"
    by (rule finite_subset) simp
  have mem: "m \<in> ?A"
    using r0 m by auto
  have low: "m \<le> a" if "a \<in> ?A" for a
  proof -
    from that obtain r where "r \<in> set chan" "cr_window_index r = window_index row"
        "cr_start_time r = Num a" by blast
    with le have "jle (start_time row) (Num a)" by metis
    then show ?thesis by (simp add: m)
  qed
  have "Min ?A = m"
    using fin low mem by (rule Min_eqI)
  then show ?thesis by (simp add: m)
qed

lemma isMaxEnd_Max:
  assumes "isMaxEnd chan row" and "\<forall>r\<in>set chan. okRow r"
  shows "end_time row = Num (Max {e. \<exists>r\<in>set chan. cr_window_index r = window_index row
            \<and> cr_end_time r = Num e})"
proof -
  let ?A = "{e. \<exists>r\<in>set chan. cr_window_index r = window_index row \<and> cr_end_time r = Num e}"
  from assms(1) obtain r0 where r0: "r0 \<in> set chan" "cr_window_index r0 = window_index row"
      "cr_end_time r0 = end_time row"
    and le: "\<forall>r\<in>set chan. cr_window_index r = window_index row
          \<longrightarrow> jle (cr_end_time r) (end_time row)"
    by (auto simp: isMaxEnd_def)
  from assms(2) r0(1) have "okRow r0" by blast
  then obtain m where m: "end_time row = Num m"
    unfolding okRow_def r0(3) by blast
  have "?A \<subseteq> (\<lambda>r. numVal (cr_end_time r)) ` set chan"
    by force
  then have fin: "finite ?A"
    by (rule finite_subset) simp
  have mem: "m \<in> ?A"
    using r0 m by auto
  have up: "a \<le> m" if "a \<in> ?A" for a
  proof -
    from that obtain r where "r \<in> set chan" "cr_window_index r = window_index row"
        "cr_end_time r = Num a" by blast
    with le have "jle (Num a) (end_time row)" by metis
    then show ?thesis by (simp add: m)
  qed
  have "Max ?A = m"
    using fin up mem by (rule Max_eqI)
  then show ?thesis by (simp add: m)
qed

lemma start_le_end:
  assumes "isMinStart chan row" and "isMaxEnd chan row" and "\<forall>r\<in>set chan. okRow r"
  shows "jle (start_time row) (end_time row)"
proof -
  from assms(1) obtain r0 where r0: "r0 \<in> set chan" "cr_window_index r0 = window_index row"
      "cr_start_time r0 = start_time row"
    by (auto simp: isMinStart_def)
  from assms(2) r0 have up: "jle (cr_end_time r0) (end_time row)"
    by (auto simp: isMaxEnd_def)
  from assms(3) r0(1) have "okRow r0" by blast
  then obtain s e where se: "cr_start_time r0 = Num s" "cr_end_time r0 = Num e" "s \<le> e"
    unfolding okRow_def by blast
  from assms(2) obtain r1 where r1: "r1 \<in> set chan" "cr_end_time r1 = end_time row"
    by (auto simp: isMaxEnd_def)
  from assms(3) r1(1) have "okRow r1" by blast
  then obtain m where m: "end_time row = Num m"
    unfolding okRow_def r1(2) by blast
  show ?thesis
    using up se m r0(3) by simp
qed

lemma scanEnd_range:
  "ei \<le> i \<Longrightarrow> ei \<le> scanEnd ne xs i ei
     \<and> (scanEnd ne xs i ei = ei \<or> scanEnd ne xs i ei < i + length xs)"
proof (induction xs arbitrary: i ei)
  case Nil
  then show ?case by simp
next
  case (Cons x xs)
  show ?case
  proof (cases "jle x ne")
    case True
    have "i \<le> scanEnd ne xs (Suc i) i
        \<and> (scanEnd ne xs (Suc i) i = i \<or> scanEnd ne xs (Suc i) i < Suc i + length xs)"
      by (rule Cons.IH) simp
    then show ?thesis
      using True Cons.prems by auto
  next
    case False
    then show ?thesis by simp
  qed
qed

lemma resolveRow_ok:
  assumes "time = map Num ts" and "ts \<noteq> []" and "sorted ts"
  shows "okRow (resolveRow time WIN HOP c)"
proof -
  define nS where "nS = nominalStart time HOP (cap_window_index c)"
  define nE where "nE = nominalEnd time WIN HOP (cap_window_index c)"
  define si where "si = (case findIndex (\<lambda>t. jge t nS) time of None \<Rightarrow> 0 | Some i \<Rightarrow> i)"
  define ei where "ei = scanEnd nE (drop si time) si si"
  have len: "length time = length ts" by (simp add: assms(1))
  have si: "si < length ts"
  proof (cases "findIndex (\<lambda>t. jge t nS) time")
    case None
    then show ?thesis using assms(2) by (simp add: si_def)
  next
    case (Some i)
    then show ?thesis using findIndex_Some [OF Some] by (simp add: si_def len)
  qed
  have "si \<le> ei \<and> (ei = si \<or> ei < si + length (drop si time))"
    unfolding ei_def by (rule scanEnd_range) simp
  then have ei: "si \<le> ei" "ei < length ts"
    using si by (auto simp: len)
  have rr: "resolveRow time WIN HOP c =
      \<lparr>cr_window_index = cap_window_index c, cr_start_time = nthJ time si,
       cr_end_time = (if ei < length time then time ! ei else nE), cr_label = cap_label c\<rparr>"
    unfolding resolveRow_def Let_def nS_def [symmetric] nE_def [symmetric] si_def [symmetric]
      ei_def [symmetric] by (rule refl)
  have "ts ! si \<le> ts ! ei"
    using assms(3) ei by (intro sorted_nth_mono) auto
  then show ?thesis
    unfolding okRow_def rr using si ei by (simp add: assms(1) nthJ_def)
qed

lemma makeRows_ok:
  assumes "time = map Num ts" and "sorted ts"
    and "makeRows (\<lambda>t. slidingWindowCaptions (Some t)) time WIN HOP arr = Some rs"
  shows "\<forall>r\<in>set rs. okRow r"
proof (cases "ts = []")
  case True
  with assms(1,3) have "rs = []"
    by (auto simp: makeRows_def slidingWindowCaptions_def)
  then show ?thesis by simp
next
  case False
  from assms(3) obtain caps where "rs = map (resolveRow time WIN HOP) caps"
    by (auto simp: makeRows_def)
  then show ?thesis
    using resolveRow_ok [OF assms(1) False assms(2)] by auto
qed

text \<open>
  The sheet is the merge of the four lists of channel rows that \<^verbatim>\<open>makeRows\<close> gives, and
  on a time column in increasing order these rows have finite bounds with
  \<open>start_time \<le> end_time\<close>.
\<close>

lemma buildCombinedStructuralSheet_channels:
  assumes "time = map Num ts" and "sorted ts"
    and "buildCombinedStructuralSheet time srs WIN HOP = Some rows"
  shows "\<exists>t1r t2r t1d t2d. rows = mergeChannels t1r t2r t1d t2d
      \<and> channelRows (\<lambda>t. slidingWindowCaptions (Some t)) time srs WIN HOP
            = Some (t1r @ t2r @ t1d @ t2d)
      \<and> (\<forall>r\<in>set (t1r @ t2r @ t1d @ t2d). okRow r)"
proof -
  let ?cap = "\<lambda>t. slidingWindowCaptions (Some t)"
  from assms(3) obtain t1r t2r t1d t2d where
    m: "makeRows ?cap time WIN HOP (tag1_residual_rad srs) = Some t1r"
       "makeRows ?cap time WIN HOP (tag2_residual_rad srs) = Some t2r"
       "makeRows ?cap time WIN HOP (tag1_detrend_rad srs) = Some t1d"
       "makeRows ?cap time WIN HOP (tag2_detrend_rad srs) = Some t2d"
    and rows: "rows = mergeChannels t1r t2r t1d t2d"
    by (auto simp: buildCombinedStructuralSheet_def buildCombinedStructuralRows_def
        bind_eq_Some_conv)
  have oks: "\<forall>r\<in>set (t1r @ t2r @ t1d @ t2d). okRow r"
    using makeRows_ok [OF assms(1,2) m(1)] makeRows_ok [OF assms(1,2) m(2)]
      makeRows_ok [OF assms(1,2) m(3)] makeRows_ok [OF assms(1,2) m(4)]
    by auto
  have "channelRows ?cap time srs WIN HOP = Some (t1r @ t2r @ t1d @ t2d)"
    by (simp add: channelRows_def m)
  with rows oks show ?thesis by blast
qed

text \<open>
  An example of the merge: channel rows of the windows 2 and 0, in this order, with
  different bounds in different channels.
\<close>

lemma mergeChannels_example:
  "mergeChannels
     [\<lparr>cr_window_index = 2, cr_start_time = Num 5, cr_end_time = Num 7, cr_label = Increasing\<rparr>,
      \<lparr>cr_window_index = 0, cr_start_time = Num 1, cr_end_time = Num 2, cr_label = Constant\<rparr>]
     [\<lparr>cr_window_index = 0, cr_start_time = Num 0, cr_end_time = Num 3, cr_label = SharpRise\<rparr>]
     [\<lparr>cr_window_index = 2, cr_start_time = Num 4, cr_end_time = Num 6, cr_label = Decreasing\<rparr>]
     []
   = [\<lparr>window_index = 0, start_time = Num 0, end_time = Num 3,
        tag1_residual_label = Some Constant, tag2_residual_label = Some SharpRise,
        tag1_detrend_label = None, tag2_detrend_label = None\<rparr>,
      \<lparr>window_index = 2, start_time = Num 4, end_time = Num 7,
        tag1_residual_label = Some Increasing, tag2_residual_label = None,
        tag1_detrend_label = Some Decreasing, tag2_detrend_label = None\<rparr>]"
proof -
  let ?r2 = "\<lparr>cr_window_index = 2, cr_start_time = Num 5, cr_end_time = Num 7, cr_label = Increasing\<rparr>"
  let ?r0 = "\<lparr>cr_window_index = 0, cr_start_time = Num 1, cr_end_time = Num 2, cr_label = Constant\<rparr>"
  let ?q0 = "\<lparr>cr_window_index = 0, cr_start_time = Num 0, cr_end_time = Num 3, cr_label = SharpRise\<rparr>"
  let ?d2 = "\<lparr>cr_window_index = 2, cr_start_time = Num 4, cr_end_time = Num 6, cr_label = Decreasing\<rparr>"
  let ?b1 = "[(2, \<lparr>window_index = 2, start_time = Num 5, end_time = Num 7,
        tag1_residual_label = Some Increasing, tag2_residual_label = None,
        tag1_detrend_label = None, tag2_detrend_label = None\<rparr>),
      (0, \<lparr>window_index = 0, start_time = Num 1, end_time = Num 2,
        tag1_residual_label = Some Constant, tag2_residual_label = None,
        tag1_detrend_label = None, tag2_detrend_label = None\<rparr>)]"
  let ?b2 = "[(2, \<lparr>window_index = 2, start_time = Num 5, end_time = Num 7,
        tag1_residual_label = Some Increasing, tag2_residual_label = None,
        tag1_detrend_label = None, tag2_detrend_label = None\<rparr>),
      (0, \<lparr>window_index = 0, start_time = Num 0, end_time = Num 3,
        tag1_residual_label = Some Constant, tag2_residual_label = Some SharpRise,
        tag1_detrend_label = None, tag2_detrend_label = None\<rparr>)]"
  let ?b3 = "[(2, \<lparr>window_index = 2, start_time = Num 4, end_time = Num 7,
        tag1_residual_label = Some Increasing, tag2_residual_label = None,
        tag1_detrend_label = Some Decreasing, tag2_detrend_label = None\<rparr>),
      (0, \<lparr>window_index = 0, start_time = Num 0, end_time = Num 3,
        tag1_residual_label = Some Constant, tag2_residual_label = Some SharpRise,
        tag1_detrend_label = None, tag2_detrend_label = None\<rparr>)]"
  have 1: "merge [] [?r2, ?r0] Tag1_residual_label = ?b1"
    by (simp add: merge_def mergeRow_def)
  have 2: "merge ?b1 [?q0] Tag2_residual_label = ?b2"
    by (simp add: merge_def mergeRow_def)
  have 3: "merge ?b2 [?d2] Tag1_detrend_label = ?b3"
    by (simp add: merge_def mergeRow_def)
  have 4: "merge ?b3 [] Tag2_detrend_label = ?b3"
    by (simp add: merge_def)
  show ?thesis
    unfolding mergeChannels_def Let_def 1 2 3 4 by simp
qed

text \<open>
  C6: the merge of \<^verbatim>\<open>buildCombinedStructuralSheet\<close> (the accumulation in \<^verbatim>\<open>byIdx\<close>
  and the final sort), applied to any four lists of channel rows whose bounds are finite
  with \<open>start_time \<le> end_time\<close>, gives a table whose rows are sorted ascending by
  window_index, with one row for every window index present in a channel; in every row
  start_time equals the minimum start and end_time the maximum end over all channel rows
  sharing that index; and every row satisfies \<open>start_time \<le> end_time\<close>. (The rows that
  \<^verbatim>\<open>makeRows\<close> resolves on a time column in increasing order are of this kind.)
\<close>

theorem C6_merged_table:
  assumes "\<forall>r\<in>set (t1r @ t2r @ t1d @ t2d). okRow r"
  shows "(let chan = t1r @ t2r @ t1d @ t2d; rows = mergeChannels t1r t2r t1d t2d
          in sorted (map window_index rows) \<and> distinct (map window_index rows)
             \<and> window_index ` set rows = cr_window_index ` set chan
             \<and> (\<forall>row\<in>set rows.
                   start_time row = Num (Min {s. \<exists>r\<in>set chan. cr_window_index r = window_index row
                                                 \<and> cr_start_time r = Num s})
                 \<and> end_time row = Num (Max {e. \<exists>r\<in>set chan. cr_window_index r = window_index row
                                                 \<and> cr_end_time r = Num e})
                 \<and> jle (start_time row) (end_time row)))"
proof -
  define chan where "chan = t1r @ t2r @ t1d @ t2d"
  have oks: "\<forall>r\<in>set chan. okRow r"
    unfolding chan_def by (rule assms)
  from mergeChannels_inv [OF assms] obtain b where
    b: "mergeChannels t1r t2r t1d t2d = sort_key window_index (map snd b)" "mergeInv b chan"
    unfolding chan_def by blast
  note props = mergeInv_rows [OF b(2) oks b(1)]
  have "start_time row = Num (Min {s. \<exists>r\<in>set chan. cr_window_index r = window_index row
                                          \<and> cr_start_time r = Num s})
          \<and> end_time row = Num (Max {e. \<exists>r\<in>set chan. cr_window_index r = window_index row
                                          \<and> cr_end_time r = Num e})
          \<and> jle (start_time row) (end_time row)"
    if "row \<in> set (mergeChannels t1r t2r t1d t2d)" for row
  proof -
    from props that have mm: "isMinStart chan row" "isMaxEnd chan row" by blast+
    show ?thesis
      using isMinStart_Min [OF mm(1) oks] isMaxEnd_Max [OF mm(2) oks]
        start_le_end [OF mm oks] by blast
  qed
  with props show ?thesis
    unfolding Let_def chan_def [symmetric] by blast
qed

theorem C6_merged_table_witness:
  "(let t1r = [\<lparr>cr_window_index = 2, cr_start_time = Num 5, cr_end_time = Num 7, cr_label = Increasing\<rparr>,
               \<lparr>cr_window_index = 0, cr_start_time = Num 1, cr_end_time = Num 2, cr_label = Constant\<rparr>];
        t2r = [\<lparr>cr_window_index = 0, cr_start_time = Num 0, cr_end_time = Num 3, cr_label = SharpRise\<rparr>];
        t1d = [\<lparr>cr_window_index = 2, cr_start_time = Num 4, cr_end_time = Num 6, cr_label = Decreasing\<rparr>];
        t2d = [];
        chan = t1r @ t2r @ t1d @ t2d;
        rows = mergeChannels t1r t2r t1d t2d
    in (\<forall>r\<in>set chan. okRow r)
       \<and> rows = [\<lparr>window_index = 0, start_time = Num 0, end_time = Num 3,
                    tag1_residual_label = Some Constant, tag2_residual_label = Some SharpRise,
                    tag1_detrend_label = None, tag2_detrend_label = None\<rparr>,
                   \<lparr>window_index = 2, start_time = Num 4, end_time = Num 7,
                    tag1_residual_label = Some Increasing, tag2_residual_label = None,
                    tag1_detrend_label = Some Decreasing, tag2_detrend_label = None\<rparr>]
       \<and> sorted (map window_index rows) \<and> distinct (map window_index rows)
       \<and> window_index ` set rows = cr_window_index ` set chan
       \<and> (\<forall>row\<in>set rows.
             start_time row = Num (Min {s. \<exists>r\<in>set chan. cr_window_index r = window_index row
                                           \<and> cr_start_time r = Num s})
           \<and> end_time row = Num (Max {e. \<exists>r\<in>set chan. cr_window_index r = window_index row
                                           \<and> cr_end_time r = Num e})
           \<and> jle (start_time row) (end_time row)))"
proof -
  let ?t1r = "[\<lparr>cr_window_index = 2, cr_start_time = Num 5, cr_end_time = Num 7, cr_label = Increasing\<rparr>,
               \<lparr>cr_window_index = 0, cr_start_time = Num 1, cr_end_time = Num 2, cr_label = Constant\<rparr>]"
  let ?t2r = "[\<lparr>cr_window_index = 0, cr_start_time = Num 0, cr_end_time = Num 3, cr_label = SharpRise\<rparr>]"
  let ?t1d = "[\<lparr>cr_window_index = 2, cr_start_time = Num 4, cr_end_time = Num 6, cr_label = Decreasing\<rparr>]"
  have oks: "\<forall>r\<in>set (?t1r @ ?t2r @ ?t1d @ []). okRow r"
    by (simp add: okRow_def)
  show ?thesis
    unfolding Let_def
    using C6_merged_table [OF oks, unfolded Let_def] oks mergeChannels_example by blast
qed
end
